theory Spec2Isabelle
  imports Complex_Main
begin

section \<open>The interaction layer of the storefront (js/main.js)\<close>

text \<open>
  The script is one immediately-invoked function that queries the document, attaches
  event listeners and keeps a few variables (cart counter, last scroll offset, the
  debounce timer). Its functions are embedded here one by one, each under the name it
  has in the source. Strings are lists of 8-bit characters. Output to the console is
  left out.

  Numbers are real numbers and an arithmetic result is the exact one: the rounding of
  IEEE binary64 is not part of the model, nor are infinities and NaN. What is stated
  below about the numbers of the scroll animation is stated at inputs where every
  intermediate result is a multiple of 1/4 of moderate size, which binary64 holds
  exactly.
\<close>

subsection \<open>Exceptions\<close>

datatype js_error = TypeError | ReferenceError | NotFoundError | SyntaxError

datatype outcome = Completed | Threw js_error

subsection \<open>smoothScrollTo (lines 35-58)\<close>

text \<open>
  \<^verbatim>\<open>function ease(t, b, c, d) { t /= d / 2; if (t < 1) return c / 2 * t * t + b;
     t--; return -c / 2 * (t * (t - 2) - 1) + b; }\<close>
\<close>

definition ease :: "real \<Rightarrow> real \<Rightarrow> real \<Rightarrow> real \<Rightarrow> real" where
  "ease t b c d =
     (let t1 = t / (d / 2) in
      if t1 < 1 then c / 2 * t1 * t1 + b
      else (let t2 = t1 - 1 in - c / 2 * (t2 * (t2 - 2) - 1) + b))"

definition duration :: real where
  "duration = 1000"

text \<open>
  The closure of one call of \<open>smoothScrollTo\<close>: the constants computed on entry, the
  variable \<open>start\<close> (\<open>None\<close> is \<open>null\<close>), every offset handed to
  \<open>window.scrollTo\<close> so far (oldest first), and whether a callback is registered with
  \<open>requestAnimationFrame\<close>.
\<close>

record scroller =
  startPosition :: real
  distance :: real
  start :: "real option"
  scrolled :: "real list"
  requested :: bool

text \<open>
  The body of \<open>smoothScrollTo\<close> up to its last line, for a target whose
  \<open>getBoundingClientRect().top\<close> is \<open>rect_top\<close> while the window is at
  \<open>pageYOffset\<close>.
\<close>

definition smoothScrollTo :: "real \<Rightarrow> real \<Rightarrow> scroller" where
  "smoothScrollTo rect_top pageYOffset =
     (let targetPosition = rect_top + pageYOffset;
          startPos = pageYOffset;
          dist = targetPosition - startPos - 60
      in \<lparr>startPosition = startPos, distance = dist, start = None,
          scrolled = [], requested = True\<rparr>)"

text \<open>One animation frame: the callback \<open>animation(currentTime)\<close>.\<close>

definition animation :: "real \<Rightarrow> scroller \<Rightarrow> scroller" where
  "animation currentTime a =
     (let st = (case start a of None \<Rightarrow> currentTime | Some s \<Rightarrow> s);
          timeElapsed = currentTime - st;
          run = ease timeElapsed (startPosition a) (distance a) duration
      in a\<lparr>start := Some st, scrolled := scrolled a @ [run],
           requested := (timeElapsed < duration)\<rparr>)"

text \<open>
  The browser calls the registered callback once per frame with the frame's timestamp;
  a frame that finds no callback registered does nothing.
\<close>

fun frames :: "real list \<Rightarrow> scroller \<Rightarrow> scroller" where
  "frames [] a = a"
| "frames (t # ts) a = (if requested a then frames ts (animation t a) else a)"

text \<open>The offset the target is meant to end at: its document offset less the header.\<close>

definition destination :: "real \<Rightarrow> real \<Rightarrow> real" where
  "destination rect_top pageYOffset = rect_top + pageYOffset - 60"

subsection \<open>Elements, events and the page\<close>

text \<open>
  Elements are named by numbers; two references are the same element exactly when the
  numbers are equal. Of each element the model keeps what the script reads or writes:
  attributes, the class list, the text content, inline style properties (the empty
  string when unset) and, for an input, its value; and what the browser needs to decide
  whether the element can take the focus: whether it is being rendered (it is in the
  document and not hidden), and whether it is focusable without a \<open>tabindex\<close> (a link
  with \<open>href\<close>, or a button or field that is not disabled).
\<close>

type_synonym node = nat

record element =
  attributes :: "string \<Rightarrow> string option"
  classList :: "string list"
  textContent :: string
  style :: "string \<Rightarrow> string"
  input_value :: string
  rendered :: bool
  focusable_by_default :: bool

definition setAttribute :: "string \<Rightarrow> string \<Rightarrow> element \<Rightarrow> element" where
  "setAttribute name v el = el\<lparr>attributes := (attributes el)(name \<mapsto> v)\<rparr>"

definition class_contains :: "string \<Rightarrow> element \<Rightarrow> bool" where
  "class_contains c el = (c \<in> set (classList el))"

definition class_remove :: "string \<Rightarrow> element \<Rightarrow> element" where
  "class_remove c el = el\<lparr>classList := removeAll c (classList el)\<rparr>"

definition class_add :: "string \<Rightarrow> element \<Rightarrow> element" where
  "class_add c el =
     (if c \<in> set (classList el) then el else el\<lparr>classList := classList el @ [c]\<rparr>)"

definition class_toggle :: "string \<Rightarrow> element \<Rightarrow> element" where
  "class_toggle c el = (if c \<in> set (classList el) then class_remove c el else class_add c el)"

definition set_style :: "string \<Rightarrow> string \<Rightarrow> element \<Rightarrow> element" where
  "set_style prop v el = el\<lparr>style := (style el)(prop := v)\<rparr>"

definition set_text :: "string \<Rightarrow> element \<Rightarrow> element" where
  "set_text v el = el\<lparr>textContent := v\<rparr>"

text \<open>The string JavaScript makes of a boolean (\<open>setAttribute\<close> with a boolean value).\<close>

definition string_of_bool :: "bool \<Rightarrow> string" where
  "string_of_bool b = (if b then ''true'' else ''false'')"

text \<open>The event object, with the two flags the handlers set on it.\<close>

record event =
  target :: node
  key :: string
  shiftKey :: bool
  defaultPrevented :: bool
  propagationStopped :: bool

definition preventDefault :: "event \<Rightarrow> event" where
  "preventDefault e = e\<lparr>defaultPrevented := True\<rparr>"

definition stopPropagation :: "event \<Rightarrow> event" where
  "stopPropagation e = e\<lparr>propagationStopped := True\<rparr>"

text \<open>
  What a delayed callback does when it runs: the closures handed to \<open>setTimeout\<close>
  in lines 186, 258, 325, 27 and 363, each with the variables it captured.
\<close>

datatype task =
    RemoveAnnouncement nat
  | ResetAddToCart node string
  | ResetSubmit node string
  | Later "node option"
  | LogPerformance

text \<open>
  The mutable state: the elements, the pieces of the document and window the script
  touches, the script's own variables (\<open>lastScrollY\<close>, the \<open>timeout\<close> of the
  debounced scroll handler, \<open>cartCount\<close>, the targets of its two intersection
  observers) and the browser's timer queue. A timer is (id, due time in ms, task), kept
  in the order of the \<open>setTimeout\<close> calls. The live regions appended to the body by
  \<open>announceToScreenReader\<close> are kept apart from the other elements, each with a number
  of its own.
\<close>

record page =
  elements :: "node \<Rightarrow> element"
  body_overflow :: string
  activeElement :: "node option"
  pageYOffset :: real
  history :: "string list"
  animations :: "scroller list"
  announcements :: "(nat \<times> string) list"
  next_announcement :: nat
  lastScrollY :: real
  timeout :: "nat option"
  cartCount :: nat
  observed :: "node list"
  lazy_observed :: "node list"
  now :: nat
  timers :: "(nat \<times> nat \<times> task) list"
  next_timer :: nat

definition upd :: "node \<Rightarrow> (element \<Rightarrow> element) \<Rightarrow> page \<Rightarrow> page" where
  "upd n f s = s\<lparr>elements := (elements s)(n := f (elements s n))\<rparr>"

text \<open>
  The rules of HTML for parsing an integer, as far as they decide whether there is one:
  leading white space is skipped, a sign may follow, and then there must be a digit.
\<close>

definition html_space :: "char \<Rightarrow> bool" where
  "html_space c = (c \<in> set [CHR 0x09, CHR 0x0A, CHR 0x0C, CHR 0x0D, CHR 0x20])"

definition ascii_digit :: "char \<Rightarrow> bool" where
  "ascii_digit c = (c \<in> set ''0123456789'')"

definition parses_as_integer :: "string \<Rightarrow> bool" where
  "parses_as_integer str =
     (case dropWhile html_space str of
        [] \<Rightarrow> False
      | c # cs \<Rightarrow>
          if c = CHR ''-'' \<or> c = CHR ''+''
          then (case cs of [] \<Rightarrow> False | c' # _ \<Rightarrow> ascii_digit c')
          else ascii_digit c)"

text \<open>
  An element can take the focus when it is being rendered and is focusable by default or
  carries a \<open>tabindex\<close> attribute with an integer.
\<close>

definition can_focus :: "element \<Rightarrow> bool" where
  "can_focus el =
     (rendered el \<and>
      (focusable_by_default el \<or>
       (case attributes el ''tabindex'' of None \<Rightarrow> False | Some v \<Rightarrow> parses_as_integer v)))"

text \<open>
  \<open>el.focus()\<close>: the focus moves to the element when it can take it; otherwise the
  call does nothing.
\<close>

definition focus :: "node \<Rightarrow> page \<Rightarrow> page" where
  "focus n s = (if can_focus (elements s n) then s\<lparr>activeElement := Some n\<rparr> else s)"

type_synonym reply = "outcome \<times> event \<times> page"

subsection \<open>Mobile navigation (lines 64-102, 384-393, 402-428)\<close>

text \<open>The click listener of the toggle, with \<open>navToggle\<close> and \<open>navMenu\<close> both found.\<close>

definition toggle_click :: "node \<Rightarrow> node \<Rightarrow> event \<Rightarrow> page \<Rightarrow> reply" where
  "toggle_click navToggle navMenu e s =
     (let isExpanded = (attributes (elements s navToggle) ''aria-expanded'' = Some ''true'');
          s1 = upd navToggle (setAttribute ''aria-expanded'' (string_of_bool (\<not> isExpanded))) s;
          s2 = upd navMenu (class_toggle ''active'') s1;
          s3 = s2\<lparr>body_overflow :=
                  (if class_contains ''active'' (elements s2 navMenu) then ''hidden'' else [])\<rparr>
      in (Completed, e, s3))"

text \<open>The three statements shared by the closing paths.\<close>

definition close_menu :: "node \<Rightarrow> node \<Rightarrow> page \<Rightarrow> page" where
  "close_menu navToggle navMenu s =
     (let s1 = upd navMenu (class_remove ''active'') s;
          s2 = upd navToggle (setAttribute ''aria-expanded'' ''false'') s1
      in s2\<lparr>body_overflow := []\<rparr>)"

definition link_click :: "node \<Rightarrow> node \<Rightarrow> event \<Rightarrow> page \<Rightarrow> reply" where
  "link_click navToggle navMenu e s = (Completed, e, close_menu navToggle navMenu s)"

text \<open>
  The click listener of the document; \<open>inside a b\<close> is \<open>a.contains(b)\<close> in the
  document as it is when the event arrives.
\<close>

definition document_click ::
  "(node \<Rightarrow> node \<Rightarrow> bool) \<Rightarrow> node \<Rightarrow> node \<Rightarrow> event \<Rightarrow> page \<Rightarrow> reply" where
  "document_click inside navToggle navMenu e s =
     (if class_contains ''active'' (elements s navMenu)
         \<and> \<not> inside navMenu (target e) \<and> \<not> inside navToggle (target e)
      then (Completed, e, close_menu navToggle navMenu s)
      else (Completed, e, s))"

text \<open>
  The keydown listener of the document (lines 384-393). It is attached whether or not
  the two elements were found, so they arrive as options; a method call on a missing
  \<open>navToggle\<close> throws after the statements before it have run.
\<close>

definition document_keydown :: "node option \<Rightarrow> node option \<Rightarrow> event \<Rightarrow> page \<Rightarrow> reply" where
  "document_keydown navToggle navMenu e s =
     (if key e = ''Escape'' then
        (case navMenu of
           None \<Rightarrow> (Completed, e, s)
         | Some m \<Rightarrow>
            if class_contains ''active'' (elements s m) then
              (let s1 = upd m (class_remove ''active'') s in
               case navToggle of
                 None \<Rightarrow> (Threw TypeError, e, s1)
               | Some t \<Rightarrow>
                  (let s2 = upd t (setAttribute ''aria-expanded'' ''false'') s1;
                       s3 = s2\<lparr>body_overflow := []\<rparr>
                   in (Completed, e, focus t s3)))
            else (Completed, e, s))
      else (Completed, e, s))"

text \<open>
  The focus trap. \<open>firstFocusable\<close> and \<open>lastFocusable\<close> are read from the list once,
  when the script runs; indexing an empty list gives \<open>undefined\<close>, here \<open>None\<close>.
\<close>

definition firstFocusable :: "node list \<Rightarrow> node option" where
  "firstFocusable focusableElements =
     (case focusableElements of [] \<Rightarrow> None | x # _ \<Rightarrow> Some x)"

definition lastFocusable :: "node list \<Rightarrow> node option" where
  "lastFocusable focusableElements =
     (if focusableElements = [] then None
      else Some (focusableElements ! (length focusableElements - 1)))"

text \<open>
  \<open>document.activeElement === x\<close>: the left side is an element or \<open>null\<close>, the right
  side an element or \<open>undefined\<close>, so they are equal only as the same element.
\<close>

definition same_element :: "node option \<Rightarrow> node option \<Rightarrow> bool" where
  "same_element a b = (case (a, b) of (Some x, Some y) \<Rightarrow> x = y | _ \<Rightarrow> False)"

text \<open>\<open>x.focus()\<close>, which throws when \<open>x\<close> is \<open>undefined\<close>.\<close>

definition focus_opt :: "node option \<Rightarrow> event \<Rightarrow> page \<Rightarrow> reply" where
  "focus_opt x e s =
     (case x of None \<Rightarrow> (Threw TypeError, e, s) | Some n \<Rightarrow> (Completed, e, focus n s))"

definition menu_keydown ::
  "node \<Rightarrow> node option \<Rightarrow> node option \<Rightarrow> event \<Rightarrow> page \<Rightarrow> reply" where
  "menu_keydown navMenu first_el last_el e s =
     (if \<not> class_contains ''active'' (elements s navMenu) then (Completed, e, s)
      else if key e = ''Tab'' then
        (if shiftKey e then
           (if same_element (activeElement s) first_el
            then focus_opt last_el (preventDefault e) s
            else (Completed, e, s))
         else
           (if same_element (activeElement s) last_el
            then focus_opt first_el (preventDefault e) s
            else (Completed, e, s)))
      else (Completed, e, s))"

subsection \<open>Timers and debounce (lines 19-29)\<close>

definition setTimeout :: "task \<Rightarrow> nat \<Rightarrow> page \<Rightarrow> nat \<times> page" where
  "setTimeout k delay s =
     (next_timer s,
      s\<lparr>timers := timers s @ [(next_timer s, now s + delay, k)],
        next_timer := Suc (next_timer s)\<rparr>)"

text \<open>\<open>clearTimeout(h)\<close>; \<open>None\<close> is the \<open>undefined\<close> of a variable never assigned.\<close>

definition clearTimeout :: "nat option \<Rightarrow> page \<Rightarrow> page" where
  "clearTimeout h s =
     (case h of None \<Rightarrow> s
      | Some i \<Rightarrow> s\<lparr>timers := filter (\<lambda>tm. fst tm \<noteq> i) (timers s)\<rparr>)"

text \<open>
  \<open>debounce(func, wait)\<close> returns \<open>executedFunction\<close>: it cancels the pending call
  and schedules \<open>later\<close>. The script uses it once, for the scroll listener with
  \<open>wait = 10\<close>, so \<open>later\<close> is the task \<open>Later header\<close> and the variable
  \<open>timeout\<close> of that one closure is a field of the page.
\<close>

definition executedFunction :: "node option \<Rightarrow> nat \<Rightarrow> page \<Rightarrow> page" where
  "executedFunction header wait s =
     (let s1 = clearTimeout (timeout s) s;
          (i, s2) = setTimeout (Later header) wait s1
      in s2\<lparr>timeout := Some i\<rparr>)"

subsection \<open>Header scroll behaviour (lines 134-154)\<close>

text \<open>
  The function handed to \<open>debounce\<close>. \<open>header\<close> is the result of
  \<open>document.querySelector('.header')\<close>; the function uses it unchecked.
\<close>

definition handleScroll_func :: "node option \<Rightarrow> page \<Rightarrow> outcome \<times> page" where
  "handleScroll_func header s =
     (let currentScrollY = pageYOffset s in
      case header of
        None \<Rightarrow> (Threw TypeError, s)
      | Some h \<Rightarrow>
          (let s1 = (if currentScrollY > lastScrollY s \<and> currentScrollY > 100
                     then upd h (set_style ''transform'' ''translateY(-100%)'') s
                     else upd h (set_style ''transform'' ''translateY(0)'') s)
           in (Completed, s1\<lparr>lastScrollY := currentScrollY\<rparr>)))"

definition window_scroll :: "node option \<Rightarrow> event \<Rightarrow> page \<Rightarrow> reply" where
  "window_scroll header e s = (Completed, e, executedFunction header 10 s)"

subsection \<open>Announcements (lines 317-328)\<close>

text \<open>
  \<open>announceToScreenReader\<close> appends a live region with the message to the body and
  schedules its removal. The region's fixed attributes (role, aria-live, class) are not
  kept.
\<close>

definition announceToScreenReader :: "string \<Rightarrow> page \<Rightarrow> page" where
  "announceToScreenReader message s =
     (let announcement = next_announcement s;
          s1 = s\<lparr>announcements := announcements s @ [(announcement, message)],
                 next_announcement := Suc announcement\<rparr>
      in snd (setTimeout (RemoveAnnouncement announcement) 1000 s1))"

subsection \<open>Delayed callbacks\<close>

fun run_task :: "task \<Rightarrow> page \<Rightarrow> outcome \<times> page" where
  "run_task (RemoveAnnouncement a) s =
     (if a \<in> fst ` set (announcements s)
      then (Completed, s\<lparr>announcements := filter (\<lambda>x. fst x \<noteq> a) (announcements s)\<rparr>)
      else (Threw NotFoundError, s))"
| "run_task (ResetAddToCart btn originalText) s =
     (Completed, upd btn (set_style ''backgroundColor'' []) (upd btn (set_text originalText) s))"
| "run_task (ResetSubmit btn originalBtnText) s =
     (Completed, upd btn (set_style ''backgroundColor'' []) (upd btn (set_text originalBtnText) s))"
| "run_task (Later header) s = handleScroll_func header (clearTimeout (timeout s) s)"
| "run_task LogPerformance s = (Completed, s)"

text \<open>
  The browser runs the timers that are due in the order of their due times, and in the
  order of the \<open>setTimeout\<close> calls among equal ones (\<open>sort_key\<close> is stable). A timer
  cancelled by an earlier callback no longer runs. No task of this script sets a timer.
\<close>

definition due_timers :: "nat \<Rightarrow> page \<Rightarrow> (nat \<times> nat \<times> task) list" where
  "due_timers t s = sort_key (\<lambda>tm. fst (snd tm)) (filter (\<lambda>tm. fst (snd tm) \<le> t) (timers s))"

definition fire :: "nat \<times> nat \<times> task \<Rightarrow> page \<Rightarrow> outcome list \<times> page" where
  "fire tm s =
     (if fst tm \<in> fst ` set (timers s)
      then (let s1 = s\<lparr>now := max (now s) (fst (snd tm)),
                       timers := filter (\<lambda>x. fst x \<noteq> fst tm) (timers s)\<rparr>;
                (out, s2) = run_task (snd (snd tm)) s1
            in ([out], s2))
      else ([], s))"

fun fire_all :: "(nat \<times> nat \<times> task) list \<Rightarrow> page \<Rightarrow> outcome list \<times> page" where
  "fire_all [] s = ([], s)"
| "fire_all (tm # tms) s =
     (let (outs, s1) = fire tm s; (outs', s2) = fire_all tms s1 in (outs @ outs', s2))"

text \<open>Time passes until the clock shows \<open>t\<close>, with no event in between.\<close>

definition advance :: "nat \<Rightarrow> page \<Rightarrow> outcome list \<times> page" where
  "advance t s =
     (let (outs, s1) = fire_all (due_timers t s) s in (outs, s1\<lparr>now := max (now s1) t\<rparr>))"

subsection \<open>Product cards (lines 160-226)\<close>

fun digit :: "nat \<Rightarrow> char" where
  "digit n = (''0123456789'' ! n)"

text \<open>The decimal numeral of a count, as the template string prints it.\<close>

fun decimal :: "nat \<Rightarrow> string" where
  "decimal n = (if n < 10 then [digit n] else decimal (n div 10) @ [digit (n mod 10)])"

text \<open>
  \<open>updateCartCount\<close>; \<open>cartLink\<close> is what \<open>document.querySelector('a[href="#cart"]')\<close>
  finds at the time of the call. The counter is a natural number here (a double counts
  exactly up to \<open>2^53\<close>).
\<close>

definition updateCartCount :: "node option \<Rightarrow> page \<Rightarrow> page" where
  "updateCartCount cartLink s =
     (let s1 = s\<lparr>cartCount := cartCount s + 1\<rparr> in
      case cartLink of
        None \<Rightarrow> s1
      | Some l \<Rightarrow> upd l (set_text (''Cart ('' @ decimal (cartCount s1) @ '')'')) s1)"

text \<open>
  The click listener of a card's "add to cart" button: \<open>btn\<close> is the button
  (\<open>this\<close>), \<open>productName\<close> the text read from the card when the script ran.
\<close>

definition add_to_cart_click :: "node option \<Rightarrow> node \<Rightarrow> string \<Rightarrow> event \<Rightarrow> page \<Rightarrow> reply" where
  "add_to_cart_click cartLink btn productName e s =
     (let e1 = stopPropagation e;
          originalText = textContent (elements s btn);
          s1 = upd btn (set_text ''Added!'') s;
          s2 = upd btn (set_style ''backgroundColor'' ''#4CAF50'') s1;
          s3 = announceToScreenReader (productName @ '' added to cart'') s2;
          s4 = updateCartCount cartLink s3;
          s5 = snd (setTimeout (ResetAddToCart btn originalText) 2000 s4)
      in (Completed, e1, s5))"

definition quick_view_click :: "string \<Rightarrow> event \<Rightarrow> page \<Rightarrow> reply" where
  "quick_view_click productName e s =
     (Completed, stopPropagation e,
      announceToScreenReader (''Opening quick view for '' @ productName) s)"

text \<open>
  The keydown listener of a card. \<open>quickViewBtn?.click()\<close> dispatches a click on the
  button, whose listener is \<open>quick_view_click\<close> and stops the propagation.
\<close>

definition card_keydown :: "node option \<Rightarrow> string \<Rightarrow> event \<Rightarrow> page \<Rightarrow> reply" where
  "card_keydown quickViewBtn productName e s =
     (if key e = ''Enter'' \<or> key e = '' '' then
        (let e1 = preventDefault e in
         case quickViewBtn of
           None \<Rightarrow> (Completed, e1, s)
         | Some q \<Rightarrow>
             (let click = \<lparr>target = q, key = [], shiftKey = False,
                           defaultPrevented = False, propagationStopped = False\<rparr>;
                  (out, _, s1) = quick_view_click productName click s
              in (out, e1, s1)))
      else (Completed, e, s))"

text \<open>
  A click travels from its target up through the ancestors; the list holds the listener
  of each element on the way, the target's first. An element's listener runs unless an
  earlier one stopped the propagation; a listener that throws does not stop it.
\<close>

fun propagate :: "(event \<Rightarrow> page \<Rightarrow> reply) list \<Rightarrow> event \<Rightarrow> page \<Rightarrow> outcome list \<times> event \<times> page" where
  "propagate [] e s = ([], e, s)"
| "propagate (h # hs) e s =
     (let (out, e1, s1) = h e s in
      if propagationStopped e1 then ([out], e1, s1)
      else (let (outs, e2, s2) = propagate hs e1 s1 in (out # outs, e2, s2)))"

subsection \<open>Newsletter form (lines 232-276)\<close>

text \<open>
  The pattern \<open>/^[^\s@]+@[^\s@]+\.[^\s@]+$/\<close> as a regular expression over
  characters, matched against the whole string (the pattern is anchored at both ends)
  by derivatives.
\<close>

datatype regex =
    Never
  | Empty
  | Exactly char
  | NoneOf "char list"
  | Then regex regex
  | Or regex regex
  | Many regex

definition some :: "regex \<Rightarrow> regex" where
  "some r = Then r (Many r)"

fun nullable :: "regex \<Rightarrow> bool" where
  "nullable Never = False"
| "nullable Empty = True"
| "nullable (Exactly c) = False"
| "nullable (NoneOf cs) = False"
| "nullable (Then r1 r2) = (nullable r1 \<and> nullable r2)"
| "nullable (Or r1 r2) = (nullable r1 \<or> nullable r2)"
| "nullable (Many r) = True"

fun deriv :: "char \<Rightarrow> regex \<Rightarrow> regex" where
  "deriv c Never = Never"
| "deriv c Empty = Never"
| "deriv c (Exactly d) = (if c = d then Empty else Never)"
| "deriv c (NoneOf cs) = (if c \<in> set cs then Never else Empty)"
| "deriv c (Then r1 r2) =
     (if nullable r1 then Or (Then (deriv c r1) r2) (deriv c r2) else Then (deriv c r1) r2)"
| "deriv c (Or r1 r2) = Or (deriv c r1) (deriv c r2)"
| "deriv c (Many r) = Then (deriv c r) (Many r)"

definition regex_test :: "regex \<Rightarrow> string \<Rightarrow> bool" where
  "regex_test r str = nullable (foldl (\<lambda>r c. deriv c r) r str)"

text \<open>The characters of \<open>\s\<close> among the 8-bit ones: TAB, LF, VT, FF, CR, space, NBSP.\<close>

definition whitespace :: "char list" where
  "whitespace = [CHR 0x09, CHR 0x0A, CHR 0x0B, CHR 0x0C, CHR 0x0D, CHR 0x20, CHR 0xA0]"

definition re :: regex where
  "re = (let part = some (NoneOf (whitespace @ ''@'')) in
         Then part (Then (Exactly CHR ''@'') (Then part (Then (Exactly CHR ''.'') part))))"

definition isValidEmail :: "string \<Rightarrow> bool" where
  "isValidEmail email = regex_test re email"

text \<open>
  The submit listener. \<open>emailInput\<close> and \<open>submitBtn\<close> are what the two
  \<open>querySelector\<close> calls on the form find when the event arrives; both are used
  unchecked.
\<close>

definition newsletter_submit :: "node option \<Rightarrow> node option \<Rightarrow> event \<Rightarrow> page \<Rightarrow> reply" where
  "newsletter_submit emailInput submitBtn e s =
     (let e1 = preventDefault e in
      case emailInput of
        None \<Rightarrow> (Threw TypeError, e1, s)
      | Some inp \<Rightarrow>
          (let email = input_value (elements s inp) in
           if email = [] \<or> \<not> isValidEmail email then
             (Completed, e1, focus inp (announceToScreenReader ''Please enter a valid email address'' s))
           else
             (case submitBtn of
                None \<Rightarrow> (Threw TypeError, e1, s)
              | Some btn \<Rightarrow>
                  (let originalBtnText = textContent (elements s btn);
                       s1 = upd btn (set_text ''Subscribed!'') s;
                       s2 = upd btn (set_style ''backgroundColor'' ''#4CAF50'') s1;
                       s3 = upd inp (\<lambda>el. el\<lparr>input_value := []\<rparr>) s2;
                       s4 = announceToScreenReader ''Successfully subscribed to newsletter'' s3;
                       s5 = snd (setTimeout (ResetSubmit btn originalBtnText) 3000 s4)
                   in (Completed, e1, s5)))))"

subsection \<open>Intersection observers (lines 285-307, 337-352)\<close>

record entry =
  entry_target :: node
  isIntersecting :: bool

text \<open>\<open>observer.observe(el)\<close> and \<open>observer.unobserve(el)\<close> on the list of targets.\<close>

definition observe :: "node \<Rightarrow> node list \<Rightarrow> node list" where
  "observe el targets = (if el \<in> set targets then targets else targets @ [el])"

definition unobserve :: "node \<Rightarrow> node list \<Rightarrow> node list" where
  "unobserve el targets = removeAll el targets"

text \<open>The callback of the reveal observer, one entry and then the whole batch.\<close>

definition reveal_entry :: "entry \<Rightarrow> page \<Rightarrow> page" where
  "reveal_entry en s =
     (if isIntersecting en then
        (let s1 = upd (entry_target en) (set_style ''opacity'' ''1'') s;
             s2 = upd (entry_target en) (set_style ''transform'' ''translateY(0)'') s1
         in s2\<lparr>observed := unobserve (entry_target en) (observed s2)\<rparr>)
      else s)"

definition reveal_callback :: "entry list \<Rightarrow> page \<Rightarrow> page" where
  "reveal_callback entries s = foldl (\<lambda>s en. reveal_entry en s) s entries"

text \<open>The callback of the observer of lazy backgrounds.\<close>

definition lazy_entry :: "entry \<Rightarrow> page \<Rightarrow> page" where
  "lazy_entry en s =
     (if isIntersecting en then
        (let s1 = upd (entry_target en) (class_add ''loaded'') s
         in s1\<lparr>lazy_observed := unobserve (entry_target en) (lazy_observed s1)\<rparr>)
      else s)"

definition lazy_callback :: "entry list \<Rightarrow> page \<Rightarrow> page" where
  "lazy_callback entries s = foldl (\<lambda>s en. lazy_entry en s) s entries"

text \<open>
  The browser calls an observer's callback with batches of entries, and it reports only
  elements that are targets of the observer when the batch is delivered. A run of
  batches is \<open>None\<close> when a batch reports an element that is no target.
\<close>

definition reports :: "node \<Rightarrow> entry list \<Rightarrow> bool" where
  "reports el entries = (\<exists>en \<in> set entries. entry_target en = el \<and> isIntersecting en)"

fun reveal_run :: "entry list list \<Rightarrow> page \<Rightarrow> page option" where
  "reveal_run [] s = Some s"
| "reveal_run (b # bs) s =
     (if \<forall>en \<in> set b. entry_target en \<in> set (observed s)
      then reveal_run bs (reveal_callback b s) else None)"

fun lazy_run :: "entry list list \<Rightarrow> page \<Rightarrow> page option" where
  "lazy_run [] s = Some s"
| "lazy_run (b # bs) s =
     (if \<forall>en \<in> set b. entry_target en \<in> set (lazy_observed s)
      then lazy_run bs (lazy_callback b s) else None)"

subsection \<open>The document and the runtime\<close>

text \<open>
  What the script's queries find: one field for each selector, the containment relation
  of the tree, and the layout (\<open>getBoundingClientRect().top\<close> of an element). A card
  carries the results of the three queries made on it, the newsletter form those of the
  two made on it. \<open>querySelector\<close> is \<open>document.querySelector\<close> for a string that
  is only known when a link is clicked: it finds an element, or nothing, or throws a
  SyntaxError when the string is no selector.
\<close>

record card =
  card_node :: node
  add_to_cart :: "node option"
  quick_view :: "node option"
  product_name :: "node option"

record form =
  form_node :: node
  email_input :: "node option"
  submit_button :: "node option"

record doc =
  nav_toggle :: "node option"
  nav_menu :: "node option"
  nav_links :: "node list"
  hash_anchors :: "node list"
  querySelector :: "string \<Rightarrow> js_error + node option"
  header :: "node option"
  product_cards :: "card list"
  cart_link :: "node option"
  newsletter_form :: "form option"
  animated_elements :: "node list"
  lazy_backgrounds :: "node list"
  menu_focusables :: "node list"
  inside :: "node \<Rightarrow> node \<Rightarrow> bool"
  bounding_top :: "node \<Rightarrow> real"

text \<open>
  The optional capabilities of the runtime: the two globals, and whether
  \<open>window.performance.timing\<close> exists.
\<close>

record runtime =
  has_requestAnimationFrame :: bool
  has_IntersectionObserver :: bool
  has_performance_timing :: bool

subsection \<open>Anchor links (lines 108-128)\<close>

text \<open>
  The click listener of an anchor whose \<open>href\<close> starts with \<open>#\<close>.
  \<open>document.querySelector(href)\<close> throws when \<open>href\<close> is no selector. The call of
  \<open>smoothScrollTo\<close> ends with \<open>requestAnimationFrame(animation)\<close>, a reference to
  a global that throws when the runtime does not define it; by then the default action
  of the click is already cancelled.
\<close>

definition anchor_click :: "runtime \<Rightarrow> doc \<Rightarrow> node \<Rightarrow> event \<Rightarrow> page \<Rightarrow> reply" where
  "anchor_click rt d anchor e s =
     (let href = (case attributes (elements s anchor) ''href'' of
                    None \<Rightarrow> ''null'' | Some h \<Rightarrow> h) in
      if href = ''#'' \<or> href = ''#cart'' then (Completed, e, s)
      else
        (case querySelector d href of
           Inl err \<Rightarrow> (Threw err, e, s)
         | Inr None \<Rightarrow> (Completed, e, s)
         | Inr (Some tgt) \<Rightarrow>
             (let e1 = preventDefault e;
                  a = smoothScrollTo (bounding_top d tgt) (pageYOffset s)
              in if \<not> has_requestAnimationFrame rt then (Threw ReferenceError, e1, s)
                 else
                   (let s1 = s\<lparr>animations := animations s @ [a]\<rparr>;
                        s2 = s1\<lparr>history := history s1 @ [href]\<rparr>;
                        s3 = upd tgt (setAttribute ''tabindex'' ''-1'') s2
                    in (Completed, e1, focus tgt s3)))))"

subsection \<open>The script from top to bottom\<close>

text \<open>
  A listener the script has attached, with the variables its closure captured. The
  listener of \<open>load\<close> only writes to the console.
\<close>

datatype listener =
    ToggleClick node node
  | NavLinkClick node node node
  | DocumentClick node node
  | AnchorClick node
  | WindowScroll "node option"
  | AddToCartClick node string
  | QuickViewClick node string
  | CardKeydown node "node option" string
  | NewsletterSubmit node
  | WindowLoad
  | DocumentKeydown "node option" "node option"
  | MenuKeydown node "node option" "node option"

text \<open>
  Each section of the script takes the listeners attached so far and the page, and
  either completes or throws; a throw ends the script, and the sections after it never
  run.
\<close>

type_synonym progress = "outcome \<times> listener list \<times> page"

definition nav_section :: "doc \<Rightarrow> listener list \<Rightarrow> page \<Rightarrow> progress" where
  "nav_section d ls s =
     (case (nav_toggle d, nav_menu d) of
        (Some t, Some m) \<Rightarrow>
          (Completed,
           ls @ [ToggleClick t m] @ map (\<lambda>l. NavLinkClick l t m) (nav_links d) @ [DocumentClick t m],
           s)
      | _ \<Rightarrow> (Completed, ls, s))"

definition anchors_section :: "doc \<Rightarrow> listener list \<Rightarrow> page \<Rightarrow> progress" where
  "anchors_section d ls s = (Completed, ls @ map AnchorClick (hash_anchors d), s)"

definition header_section :: "doc \<Rightarrow> listener list \<Rightarrow> page \<Rightarrow> progress" where
  "header_section d ls s =
     (Completed, ls @ [WindowScroll (header d)], s\<lparr>lastScrollY := pageYOffset s\<rparr>)"

text \<open>
  The body of \<open>productCards.forEach\<close> for one card: the name is read from the result
  of \<open>card.querySelector('.product-name')\<close> before any listener is attached.
\<close>

definition card_listeners :: "page \<Rightarrow> card \<Rightarrow> js_error + listener list" where
  "card_listeners s c =
     (case product_name c of
        None \<Rightarrow> Inl TypeError
      | Some n \<Rightarrow>
          (let productName = textContent (elements s n) in
           Inr ((case add_to_cart c of None \<Rightarrow> [] | Some b \<Rightarrow> [AddToCartClick b productName])
                @ (case quick_view c of None \<Rightarrow> [] | Some q \<Rightarrow> [QuickViewClick q productName])
                @ [CardKeydown (card_node c) (quick_view c) productName])))"

fun cards_loop :: "card list \<Rightarrow> listener list \<Rightarrow> page \<Rightarrow> progress" where
  "cards_loop [] ls s = (Completed, ls, s)"
| "cards_loop (c # cs) ls s =
     (case card_listeners s c of
        Inl err \<Rightarrow> (Threw err, ls, s)
      | Inr new \<Rightarrow> cards_loop cs (ls @ new) s)"

definition cards_section :: "doc \<Rightarrow> listener list \<Rightarrow> page \<Rightarrow> progress" where
  "cards_section d ls s = cards_loop (product_cards d) ls s"

definition newsletter_section :: "doc \<Rightarrow> listener list \<Rightarrow> page \<Rightarrow> progress" where
  "newsletter_section d ls s =
     (case newsletter_form d of
        None \<Rightarrow> (Completed, ls, s)
      | Some f \<Rightarrow> (Completed, ls @ [NewsletterSubmit (form_node f)], s))"

text \<open>
  Lines 290-307: \<open>new IntersectionObserver(...)\<close> is evaluated without a test for the
  constructor; then every animated element is hidden and observed.
\<close>

definition hide_and_observe :: "node \<Rightarrow> page \<Rightarrow> page" where
  "hide_and_observe el s =
     (let s1 = upd el (set_style ''opacity'' ''0'') s;
          s2 = upd el (set_style ''transform'' ''translateY(20px)'') s1;
          s3 = upd el (set_style ''transition'' ''opacity 0.6s ease, transform 0.6s ease'') s2
      in s3\<lparr>observed := observe el (observed s3)\<rparr>)"

definition reveal_section :: "runtime \<Rightarrow> doc \<Rightarrow> listener list \<Rightarrow> page \<Rightarrow> progress" where
  "reveal_section rt d ls s =
     (if \<not> has_IntersectionObserver rt then (Threw ReferenceError, ls, s)
      else (Completed, ls, foldl (\<lambda>s el. hide_and_observe el s) s (animated_elements d)))"

text \<open>Lines 337-352, inside \<open>if ('IntersectionObserver' in window)\<close>.\<close>

definition lazy_section :: "runtime \<Rightarrow> doc \<Rightarrow> listener list \<Rightarrow> page \<Rightarrow> progress" where
  "lazy_section rt d ls s =
     (if has_IntersectionObserver rt
      then (Completed, ls,
            foldl (\<lambda>s bg. s\<lparr>lazy_observed := observe bg (lazy_observed s)\<rparr>) s (lazy_backgrounds d))
      else (Completed, ls, s))"

definition load_section :: "listener list \<Rightarrow> page \<Rightarrow> progress" where
  "load_section ls s = (Completed, ls @ [WindowLoad], s)"

definition escape_section :: "doc \<Rightarrow> listener list \<Rightarrow> page \<Rightarrow> progress" where
  "escape_section d ls s = (Completed, ls @ [DocumentKeydown (nav_toggle d) (nav_menu d)], s)"

definition focus_trap_section :: "doc \<Rightarrow> listener list \<Rightarrow> page \<Rightarrow> progress" where
  "focus_trap_section d ls s =
     (case nav_menu d of
        None \<Rightarrow> (Completed, ls, s)
      | Some m \<Rightarrow>
          (Completed,
           ls @ [MenuKeydown m (firstFocusable (menu_focusables d)) (lastFocusable (menu_focusables d))],
           s))"

fun sections :: "(listener list \<Rightarrow> page \<Rightarrow> progress) list \<Rightarrow> listener list \<Rightarrow> page \<Rightarrow> progress" where
  "sections [] ls s = (Completed, ls, s)"
| "sections (f # fs) ls s =
     (case f ls s of
        (Completed, ls1, s1) \<Rightarrow> sections fs ls1 s1
      | (Threw err, ls1, s1) \<Rightarrow> (Threw err, ls1, s1))"

definition script :: "runtime \<Rightarrow> doc \<Rightarrow> page \<Rightarrow> progress" where
  "script rt d s =
     sections [nav_section d, anchors_section d, header_section d, cards_section d,
               newsletter_section d, reveal_section rt d, lazy_section rt d, load_section,
               escape_section d, focus_trap_section d] [] s"

text \<open>
  An attached listener receives an event; \<open>d\<close> is the document at that time, for the
  queries the listeners make when they run.
\<close>

fun handle :: "runtime \<Rightarrow> doc \<Rightarrow> listener \<Rightarrow> event \<Rightarrow> page \<Rightarrow> reply" where
  "handle rt d (ToggleClick t m) e s = toggle_click t m e s"
| "handle rt d (NavLinkClick l t m) e s = link_click t m e s"
| "handle rt d (DocumentClick t m) e s = document_click (inside d) t m e s"
| "handle rt d (AnchorClick a) e s = anchor_click rt d a e s"
| "handle rt d (WindowScroll h) e s = window_scroll h e s"
| "handle rt d (AddToCartClick b name) e s = add_to_cart_click (cart_link d) b name e s"
| "handle rt d (QuickViewClick q name) e s = quick_view_click name e s"
| "handle rt d (CardKeydown c q name) e s = card_keydown q name e s"
| "handle rt d (NewsletterSubmit f) e s =
     (case newsletter_form d of
        None \<Rightarrow> newsletter_submit None None e s
      | Some fm \<Rightarrow> newsletter_submit (email_input fm) (submit_button fm) e s)"
| "handle rt d WindowLoad e s =
     (if has_performance_timing rt then (Completed, e, snd (setTimeout LogPerformance 0 s))
      else (Completed, e, s))"
| "handle rt d (DocumentKeydown t m) e s = document_keydown t m e s"
| "handle rt d (MenuKeydown m f l) e s = menu_keydown m f l e s"

subsection \<open>Runs of the menu's listeners\<close>

text \<open>
  The four listeners that change the menu, each with the event it receives: the click
  listeners of the toggle, of a menu link and of the document (for a click anywhere),
  and the keydown listener of the document (for any key).
\<close>

datatype menu_op =
    ToggleClicked event
  | LinkClicked event
  | ClickedSomewhere event
  | KeyPressed event

fun menu_step :: "(node \<Rightarrow> node \<Rightarrow> bool) \<Rightarrow> node \<Rightarrow> node \<Rightarrow> menu_op \<Rightarrow> page \<Rightarrow> reply" where
  "menu_step ins t m (ToggleClicked e) s = toggle_click t m e s"
| "menu_step ins t m (LinkClicked e) s = link_click t m e s"
| "menu_step ins t m (ClickedSomewhere e) s = document_click ins t m e s"
| "menu_step ins t m (KeyPressed e) s = document_keydown (Some t) (Some m) e s"

text \<open>The outcome and the page after each listener of a run, in order.\<close>

fun menu_trace ::
  "(node \<Rightarrow> node \<Rightarrow> bool) \<Rightarrow> node \<Rightarrow> node \<Rightarrow> menu_op list \<Rightarrow> page \<Rightarrow> (outcome \<times> page) list" where
  "menu_trace ins t m [] s = []"
| "menu_trace ins t m (x # xs) s =
     (let (out, e1, s1) = menu_step ins t m x s in (out, s1) # menu_trace ins t m xs s1)"

text \<open>The attribute says "expanded" exactly when the menu carries the class.\<close>

definition consistent :: "node \<Rightarrow> node \<Rightarrow> page \<Rightarrow> bool" where
  "consistent t m s =
     ((attributes (elements s t) ''aria-expanded'' = Some ''true'')
        = class_contains ''active'' (elements s m))"

subsection \<open>Timer ids\<close>

text \<open>
  Ids come from the counter \<open>next_timer\<close>, so every pending timer and the id kept in
  \<open>timeout\<close> lie below it. This holds on a fresh page, and every listener and every
  passing of time keep it (lemmas \<open>timers_ok_fresh\<close>, \<open>timers_ok_handle\<close>,
  \<open>timers_ok_advance\<close>).
\<close>

definition timers_ok :: "page \<Rightarrow> bool" where
  "timers_ok s =
     (list_all (\<lambda>tm. fst tm < next_timer s) (timers s)
      \<and> (case timeout s of None \<Rightarrow> True | Some i \<Rightarrow> i < next_timer s))"

subsection \<open>Runs of events\<close>

text \<open>
  What happens to a page with the script loaded: an attached listener receives an event,
  the visitor fills in a field, or so many milliseconds pass, during which the due
  timers run.
\<close>

datatype step = Dispatch listener event | Fill node string | Wait nat

fun do_step :: "runtime \<Rightarrow> doc \<Rightarrow> step \<Rightarrow> page \<Rightarrow> page" where
  "do_step rt d (Dispatch l e) s = snd (snd (handle rt d l e s))"
| "do_step rt d (Fill n v) s = upd n (\<lambda>el. el\<lparr>input_value := v\<rparr>) s"
| "do_step rt d (Wait ms) s = snd (advance (now s + ms) s)"

definition run :: "runtime \<Rightarrow> doc \<Rightarrow> step list \<Rightarrow> page \<Rightarrow> page" where
  "run rt d steps s = foldl (\<lambda>s x. do_step rt d x s) s steps"

fun adds_to_cart :: "step \<Rightarrow> bool" where
  "adds_to_cart (Dispatch (AddToCartClick b name) e) = True"
| "adds_to_cart x = False"

subsection \<open>Example inputs\<close>

definition blank :: element where
  "blank = \<lparr>attributes = (\<lambda>_. None), classList = [], textContent = [],
            style = (\<lambda>_. []), input_value = [], rendered = True,
            focusable_by_default = False\<rparr>"

text \<open>
  A page just loaded: every element is rendered and has nothing set on it, there is no
  timer, and the clock is at 0.
\<close>

definition fresh_page :: page where
  "fresh_page =
     \<lparr>elements = (\<lambda>_. blank), body_overflow = [], activeElement = None, pageYOffset = 0,
      history = [], animations = [], announcements = [], next_announcement = 0,
      lastScrollY = 0, timeout = None, cartCount = 0, observed = [], lazy_observed = [],
      now = 0, timers = [], next_timer = 0\<rparr>"

definition click_on :: "node \<Rightarrow> event" where
  "click_on n = \<lparr>target = n, key = [], shiftKey = False,
                 defaultPrevented = False, propagationStopped = False\<rparr>"

definition key_press :: "node \<Rightarrow> string \<Rightarrow> bool \<Rightarrow> event" where
  "key_press n k shift = \<lparr>target = n, key = k, shiftKey = shift,
                          defaultPrevented = False, propagationStopped = False\<rparr>"

text \<open>
  A CSS identifier without escapes: a letter, an underscore or a character beyond ASCII,
  after at most two hyphens, followed by such characters, digits and hyphens.
\<close>

definition ident_start :: "char \<Rightarrow> bool" where
  "ident_start c =
     (c \<in> set ''abcdefghijklmnopqrstuvwxyzABCDEFGHIJKLMNOPQRSTUVWXYZ_'' \<or> 128 \<le> (of_char c :: nat))"

definition ident_char :: "char \<Rightarrow> bool" where
  "ident_char c = (ident_start c \<or> ascii_digit c \<or> c = CHR ''-'')"

definition css_identifier :: "string \<Rightarrow> bool" where
  "css_identifier str =
     (case str of
        [] \<Rightarrow> False
      | c # cs \<Rightarrow>
          if c = CHR ''-''
          then (case cs of
                  [] \<Rightarrow> False
                | c' # cs' \<Rightarrow> (ident_start c' \<or> c' = CHR ''-'') \<and> list_all ident_char cs')
          else ident_start c \<and> list_all ident_char cs)"

text \<open>
  A document with every element the script looks for: toggle 1, menu 2 with the links 3
  and 4, header 5, cart link 6, the form 7 with input 8 and button 9, two product cards
  (10 with button 11, quick view 12 and name 13; 14 with button 15 and name 16, no quick
  view), two lazy backgrounds and a section 20 with the id \<open>about\<close>, which the link 3
  points to. The document is asked for type selectors and id selectors only: it finds
  the section for \<open>#about\<close>, nothing for another identifier with or without \<open>#\<close>,
  and takes every other string for no selector.
\<close>

definition example_doc :: doc where
  "example_doc =
     \<lparr>nav_toggle = Some 1, nav_menu = Some 2, nav_links = [3, 4], hash_anchors = [3, 4, 6],
      querySelector =
        (\<lambda>sel. if sel = ''#about'' then Inr (Some 20)
               else if css_identifier sel \<or> (sel \<noteq> [] \<and> hd sel = CHR ''#'' \<and> css_identifier (tl sel))
               then Inr None
               else Inl SyntaxError),
      header = Some 5,
      product_cards =
        [\<lparr>card_node = 10, add_to_cart = Some 11, quick_view = Some 12, product_name = Some 13\<rparr>,
         \<lparr>card_node = 14, add_to_cart = Some 15, quick_view = None, product_name = Some 16\<rparr>],
      cart_link = Some 6,
      newsletter_form = Some \<lparr>form_node = 7, email_input = Some 8, submit_button = Some 9\<rparr>,
      animated_elements = [10, 14, 20], lazy_backgrounds = [17, 18],
      menu_focusables = [3, 4],
      inside = (\<lambda>a b. a = b \<or> (a = 2 \<and> (b = 3 \<or> b = 4))),
      bounding_top = (\<lambda>n. if n = 20 then 860 else 0)\<rparr>"

text \<open>
  The page of that document before the script runs: the toggle, the links, the field and
  the buttons are focusable by default, and the links and labels have their texts.
\<close>

definition example_page :: page where
  "example_page =
     upd 3 (setAttribute ''href'' ''#about'')
      (upd 4 (setAttribute ''href'' ''#'')
        (upd 6 (setAttribute ''href'' ''#cart'')
          (upd 6 (set_text ''Cart (0)'')
            (upd 9 (set_text ''Subscribe'')
              (upd 11 (set_text ''Add to Cart'')
                (upd 13 (set_text ''Silk Bodysuit'')
                  (upd 15 (set_text ''Add to Cart'')
                    (upd 16 (set_text ''Lace Bodysuit'')
                      (fresh_page\<lparr>elements :=
                         (\<lambda>n. if n \<in> set [1, 3, 4, 6, 8, 9, 11, 12, 15]
                              then blank\<lparr>focusable_by_default := True\<rparr> else blank)\<rparr>)))))))))"

definition modern :: runtime where
  "modern = \<lparr>has_requestAnimationFrame = True, has_IntersectionObserver = True,
              has_performance_timing = True\<rparr>"

definition bare :: runtime where
  "bare = \<lparr>has_requestAnimationFrame = False, has_IntersectionObserver = False,
            has_performance_timing = False\<rparr>"

text \<open>The example page once the script has run in a modern runtime.\<close>

definition loaded :: page where
  "loaded = snd (snd (script modern example_doc example_page))"

text \<open>
  Two events on the loaded example page: the form is submitted, and the "add to cart"
  button of the first card is clicked.
\<close>

definition submit :: step where
  "submit = Dispatch (NewsletterSubmit 7) (click_on 7)"

definition add_silk :: step where
  "add_silk = Dispatch (AddToCartClick 11 ''Silk Bodysuit'') (click_on 11)"

text \<open>The example page after the two observer sections of the script have run.\<close>

definition observing :: page where
  "observing =
     snd (snd (sections [reveal_section modern example_doc, lazy_section modern example_doc]
                 [] example_page))"

definition entered :: "node \<Rightarrow> entry" where
  "entered n = \<lparr>entry_target = n, isIntersecting = True\<rparr>"

definition left :: "node \<Rightarrow> entry" where
  "left n = \<lparr>entry_target = n, isIntersecting = False\<rparr>"

text \<open>A product card whose markup lacks the \<open>.product-name\<close> element.\<close>

definition nameless_card :: card where
  "nameless_card = \<lparr>card_node = 30, add_to_cart = Some 31, quick_view = None, product_name = None\<rparr>"

section \<open>Properties\<close>

subsection \<open>The scroll animation\<close>

text \<open>
  C3 at a concrete input: the window is at offset 0, the target's top is at 860, so the
  destination is 800. Frames arrive at 0 ms, 500 ms and 1250 ms. The third frame ends
  the animation and the last offset written is 700.
\<close>

theorem smoothScrollTo_late_frame:
  "requested (frames [0, 500, 1250] (smoothScrollTo 860 0)) = False
   \<and> scrolled (frames [0, 500, 1250] (smoothScrollTo 860 0)) = [0, 400, 700]
   \<and> destination 860 0 = 800"
  by (simp add: smoothScrollTo_def animation_def ease_def duration_def destination_def)

subsection \<open>The menu\<close>

lemma elements_upd [simp]: "elements (upd n f s) = (elements s)(n := f (elements s n))"
  by (simp add: upd_def)

lemma elements_focus [simp]: "elements (focus n s) = elements s"
  by (simp add: focus_def)

lemma attributes_setAttribute [simp]:
  "attributes (setAttribute name v el) = (attributes el)(name \<mapsto> v)"
  by (simp add: setAttribute_def)

lemma classList_setAttribute [simp]: "classList (setAttribute name v el) = classList el"
  by (simp add: setAttribute_def)

lemma attributes_class_toggle [simp]: "attributes (class_toggle c el) = attributes el"
  by (simp add: class_toggle_def class_remove_def class_add_def)

lemma attributes_class_remove [simp]: "attributes (class_remove c el) = attributes el"
  by (simp add: class_remove_def)

lemma class_contains_toggle [simp]:
  "class_contains c (class_toggle c el) = (\<not> class_contains c el)"
  by (simp add: class_toggle_def class_remove_def class_add_def class_contains_def)

lemma class_contains_remove [simp]: "\<not> class_contains c (class_remove c el)"
  by (simp add: class_remove_def class_contains_def)

lemma class_contains_setAttribute [simp]:
  "class_contains c (setAttribute name v el) = class_contains c el"
  by (simp add: class_contains_def)

lemma toggle_click_consistent:
  assumes "consistent t m s"
  shows "fst (toggle_click t m e s) = Completed"
    and "consistent t m (snd (snd (toggle_click t m e s)))"
proof -
  show "fst (toggle_click t m e s) = Completed"
    by (simp add: toggle_click_def Let_def)
  from assms show "consistent t m (snd (snd (toggle_click t m e s)))"
    by (cases "m = t") (simp_all add: toggle_click_def Let_def consistent_def string_of_bool_def)
qed

lemma close_menu_consistent: "consistent t m (close_menu t m s)"
  by (cases "m = t") (simp_all add: close_menu_def consistent_def Let_def)

lemma document_keydown_consistent:
  assumes "consistent t m s"
  shows "fst (document_keydown (Some t) (Some m) e s) = Completed"
    and "consistent t m (snd (snd (document_keydown (Some t) (Some m) e s)))"
proof -
  show "fst (document_keydown (Some t) (Some m) e s) = Completed"
    by (simp add: document_keydown_def Let_def)
  have "consistent t m (focus t ((upd t (setAttribute ''aria-expanded'' ''false'')
          (upd m (class_remove ''active'') s))\<lparr>body_overflow := []\<rparr>))"
    by (cases "m = t") (simp_all add: consistent_def)
  with assms show "consistent t m (snd (snd (document_keydown (Some t) (Some m) e s)))"
    by (simp add: document_keydown_def Let_def)
qed

lemma menu_step_consistent:
  assumes "consistent t m s"
  shows "fst (menu_step ins t m x s) = Completed
       \<and> consistent t m (snd (snd (menu_step ins t m x s)))"
proof (cases x)
  case (ToggleClicked e)
  with toggle_click_consistent [OF assms] show ?thesis by simp
next
  case (LinkClicked e)
  with close_menu_consistent show ?thesis by (simp add: link_click_def)
next
  case (ClickedSomewhere e)
  with close_menu_consistent assms show ?thesis by (simp add: document_click_def)
next
  case (KeyPressed e)
  with document_keydown_consistent [OF assms] show ?thesis by simp
qed

text \<open>
  C1: from a page on which the toggle's \<open>aria-expanded\<close> is \<open>true\<close> exactly when the
  menu has the class \<open>active\<close>, every run of the menu's listeners (toggle click, link
  click, document click with any target, document keydown with any key, in any order)
  lets every listener complete and leaves the two in agreement after each of them.
\<close>

theorem menu_attribute_and_class_agree:
  "consistent t m s \<Longrightarrow>
   \<forall>(out, s1) \<in> set (menu_trace ins t m ops s). out = Completed \<and> consistent t m s1"
proof (induction ops arbitrary: s)
  case Nil
  show ?case by simp
next
  case (Cons x xs)
  obtain out e1 s1 where step: "menu_step ins t m x s = (out, e1, s1)"
    by (cases "menu_step ins t m x s") auto
  from menu_step_consistent [OF Cons.prems, of ins x] step
  have ok: "out = Completed" "consistent t m s1" by simp_all
  from Cons.IH [OF ok(2)] ok step show ?case by simp
qed

theorem menu_attribute_and_class_agree_witness:
  "consistent 1 2 fresh_page \<and>
   list_all (\<lambda>(out, s1). out = Completed \<and> consistent 1 2 s1)
     (menu_trace (\<lambda>a b. a = b) 1 2
        [ToggleClicked (click_on 1), ClickedSomewhere (click_on 1), ClickedSomewhere (click_on 7),
         ToggleClicked (click_on 1), KeyPressed (key_press 2 ''Escape'' False),
         ToggleClicked (click_on 1), LinkClicked (click_on 3)] fresh_page)"
proof -
  have h: "consistent 1 2 fresh_page"
    by (simp add: consistent_def fresh_page_def blank_def class_contains_def)
  from h menu_attribute_and_class_agree [OF h] show ?thesis
    unfolding list_all_iff by blast
qed

lemma firstFocusable_hd: "fs \<noteq> [] \<Longrightarrow> firstFocusable fs = Some (hd fs)"
  by (cases fs) (simp_all add: firstFocusable_def)

lemma lastFocusable_last: "fs \<noteq> [] \<Longrightarrow> lastFocusable fs = Some (last fs)"
  by (simp add: lastFocusable_def last_conv_nth)

text \<open>
  C10: in a document with a \<open>.nav-menu\<close> but no \<open>.nav-toggle\<close>, the script
  attaches none of the click listeners of the menu (it attaches them only when both
  elements exist), yet it attaches the keydown listener of the document with the missing
  toggle captured. When the menu carries the class
  \<open>active\<close> and Escape is pressed, that listener removes the class and then throws
  a TypeError at \<open>navToggle.setAttribute\<close>; the scroll lock is not released and no
  focus is moved.
\<close>

theorem escape_without_toggle_throws:
  assumes "nav_toggle d = None" and "nav_menu d = Some m"
    and "class_contains ''active'' (elements s m)" and "key e = ''Escape''"
  shows "nav_section d ls s0 = (Completed, ls, s0)
       \<and> (\<forall>d'. nav_toggle d' = None \<or> nav_menu d' = None \<longrightarrow>
              nav_section d' ls s0 = (Completed, ls, s0))
       \<and> escape_section d ls s0 = (Completed, ls @ [DocumentKeydown None (Some m)], s0)
       \<and> handle rt d (DocumentKeydown None (Some m)) e s
           = (Threw TypeError, e, upd m (class_remove ''active'') s)"
  using assms
  by (auto simp: nav_section_def escape_section_def document_keydown_def Let_def
      split: option.splits)

theorem escape_without_toggle_throws_witness:
  "nav_toggle (example_doc\<lparr>nav_toggle := None\<rparr>) = None
   \<and> nav_menu (example_doc\<lparr>nav_toggle := None\<rparr>) = Some 2
   \<and> class_contains ''active'' (elements (upd 2 (class_add ''active'') example_page) 2)
   \<and> key (key_press 2 ''Escape'' False) = ''Escape''
   \<and> nav_section (example_doc\<lparr>nav_toggle := None\<rparr>) [] example_page = (Completed, [], example_page)
   \<and> fst (handle modern (example_doc\<lparr>nav_toggle := None\<rparr>) (DocumentKeydown None (Some 2))
           (key_press 2 ''Escape'' False) (upd 2 (class_add ''active'') example_page))
       = Threw TypeError
   \<and> body_overflow (snd (snd (handle modern (example_doc\<lparr>nav_toggle := None\<rparr>)
           (DocumentKeydown None (Some 2))
           (key_press 2 ''Escape'' False)
           ((upd 2 (class_add ''active'') example_page)\<lparr>body_overflow := ''hidden''\<rparr>))))
       = ''hidden''"
proof -
  have h: "nav_toggle (example_doc\<lparr>nav_toggle := None\<rparr>) = None"
    "nav_menu (example_doc\<lparr>nav_toggle := None\<rparr>) = Some 2"
    "key (key_press 2 ''Escape'' False) = ''Escape''"
    by (simp_all add: example_doc_def key_press_def)
  have a: "class_contains ''active'' (elements (upd 2 (class_add ''active'') example_page) 2)"
    by (simp add: class_contains_def class_add_def upd_def)
  have b: "class_contains ''active''
      (elements ((upd 2 (class_add ''active'') example_page)\<lparr>body_overflow := ''hidden''\<rparr>) 2)"
    by (simp add: class_contains_def class_add_def upd_def)
  from escape_without_toggle_throws [OF h(1,2) a h(3), of "[]" example_page modern]
    escape_without_toggle_throws [OF h(1,2) b h(3), of "[]" example_page modern]
    h a
  show ?thesis by (simp add: upd_def)
qed

text \<open>
  C9 (amended): the script reads the first and the last focusable element of the menu
  once, when it attaches the keydown listener of the menu. While the menu is open, Tab
  on the last of them cancels the default action and calls \<open>focus()\<close> on the first:
  the focus moves there if that element can still take it, and stays where it is
  otherwise. Shift+Tab on the first does the same towards the last. This holds for every
  document \<open>d'\<close> at the time of the key press, whatever the menu then contains.
\<close>

theorem focus_trap_wraps:
  assumes "nav_menu d = Some m" and "menu_focusables d = fs" and "fs \<noteq> []"
    and "class_contains ''active'' (elements s m)" and "key e = ''Tab''"
  shows "focus_trap_section d ls s0
           = (Completed, ls @ [MenuKeydown m (firstFocusable fs) (lastFocusable fs)], s0)
       \<and> (\<forall>rt d'.
            (\<not> shiftKey e \<and> activeElement s = Some (last fs) \<longrightarrow>
               handle rt d' (MenuKeydown m (firstFocusable fs) (lastFocusable fs)) e s
                 = (Completed, preventDefault e,
                    if can_focus (elements s (hd fs)) then s\<lparr>activeElement := Some (hd fs)\<rparr> else s))
          \<and> (shiftKey e \<and> activeElement s = Some (hd fs) \<longrightarrow>
               handle rt d' (MenuKeydown m (firstFocusable fs) (lastFocusable fs)) e s
                 = (Completed, preventDefault e,
                    if can_focus (elements s (last fs)) then s\<lparr>activeElement := Some (last fs)\<rparr> else s)))"
  using assms
  by (simp add: focus_trap_section_def menu_keydown_def firstFocusable_hd lastFocusable_last
      same_element_def focus_opt_def focus_def)

theorem focus_trap_wraps_witness:
  "nav_menu example_doc = Some 2 \<and> menu_focusables example_doc = [3, 4] \<and> [3, 4] \<noteq> ([] :: node list)
   \<and> class_contains ''active'' (elements (focus 4 (upd 2 (class_add ''active'') example_page)) 2)
   \<and> key (key_press 4 ''Tab'' False) = ''Tab''
   \<and> activeElement (focus 4 (upd 2 (class_add ''active'') example_page)) = Some 4
   \<and> activeElement (focus 3 (upd 2 (class_add ''active'') example_page)) = Some 3
   \<and> focus_trap_section example_doc [] example_page
        = (Completed, [MenuKeydown 2 (Some 3) (Some 4)], example_page)
   \<and> activeElement (snd (snd (handle modern (example_doc\<lparr>menu_focusables := [4, 21]\<rparr>)
          (MenuKeydown 2 (Some 3) (Some 4)) (key_press 4 ''Tab'' False)
          (focus 4 (upd 2 (class_add ''active'') example_page))))) = Some 3
   \<and> activeElement (snd (snd (handle modern (example_doc\<lparr>menu_focusables := [4, 21]\<rparr>)
          (MenuKeydown 2 (Some 3) (Some 4)) (key_press 3 ''Tab'' True)
          (focus 3 (upd 2 (class_add ''active'') example_page))))) = Some 4"
proof -
  have h: "nav_menu example_doc = Some 2" "menu_focusables example_doc = [3, 4]"
    "[3, 4] \<noteq> ([] :: node list)"
    by (simp_all add: example_doc_def)
  have c: "can_focus (elements example_page 3)" "can_focus (elements example_page 4)"
    by (simp_all add: example_page_def fresh_page_def blank_def upd_def can_focus_def
        setAttribute_def)
  have a: "class_contains ''active'' (elements (focus 4 (upd 2 (class_add ''active'') example_page)) 2)"
    "class_contains ''active'' (elements (focus 3 (upd 2 (class_add ''active'') example_page)) 2)"
    by (simp_all add: class_contains_def class_add_def upd_def)
  have f: "activeElement (focus 4 (upd 2 (class_add ''active'') example_page)) = Some 4"
    "activeElement (focus 3 (upd 2 (class_add ''active'') example_page)) = Some 3"
    using c by (simp_all add: focus_def upd_def)
  have k: "key (key_press 4 ''Tab'' False) = ''Tab''" "key (key_press 3 ''Tab'' True) = ''Tab''"
    by (simp_all add: key_press_def)
  from focus_trap_wraps [OF h a(1) k(1), of "[]" example_page]
    focus_trap_wraps [OF h a(2) k(2), of "[]" example_page]
    h a k f c
  show ?thesis
    by (simp add: firstFocusable_def lastFocusable_def key_press_def upd_def)
qed

text \<open>
  C9 as stated fails once the first link has left the document: the script attached the
  listener with the links 3 and 4, the menu is open and the focus is on 4; Tab cancels the
  default action, \<open>focus()\<close> on the link 3 does nothing, and the focus stays on 4.
\<close>

theorem focus_trap_stale_first:
  "MenuKeydown 2 (Some 3) (Some 4) \<in> set (fst (snd (script modern example_doc example_page)))
   \<and> activeElement (upd 3 (\<lambda>el. el\<lparr>rendered := False\<rparr>)
        (focus 4 (upd 2 (class_add ''active'') loaded))) = Some 4
   \<and> activeElement (snd (snd (handle modern example_doc (MenuKeydown 2 (Some 3) (Some 4))
        (key_press 4 ''Tab'' False)
        (upd 3 (\<lambda>el. el\<lparr>rendered := False\<rparr>)
          (focus 4 (upd 2 (class_add ''active'') loaded)))))) = Some 4
   \<and> defaultPrevented (fst (snd (handle modern example_doc (MenuKeydown 2 (Some 3) (Some 4))
        (key_press 4 ''Tab'' False)
        (upd 3 (\<lambda>el. el\<lparr>rendered := False\<rparr>)
          (focus 4 (upd 2 (class_add ''active'') loaded))))))"
  by (simp add: loaded_def script_def nav_section_def anchors_section_def
      header_section_def cards_section_def card_listeners_def newsletter_section_def
      reveal_section_def lazy_section_def load_section_def escape_section_def
      focus_trap_section_def firstFocusable_def lastFocusable_def
      modern_def example_doc_def example_page_def fresh_page_def blank_def upd_def
      hide_and_observe_def observe_def Let_def set_style_def set_text_def setAttribute_def
      menu_keydown_def same_element_def focus_opt_def focus_def can_focus_def
      class_contains_def class_add_def key_press_def preventDefault_def)

subsection \<open>The intersection observers\<close>

lemma observed_upd [simp]: "observed (upd n f s) = observed s"
  by (simp add: upd_def)

lemma lazy_observed_upd [simp]: "lazy_observed (upd n f s) = lazy_observed s"
  by (simp add: upd_def)

lemma observed_reveal_entry:
  "observed (reveal_entry en s) =
     (if isIntersecting en then removeAll (entry_target en) (observed s) else observed s)"
  by (simp add: reveal_entry_def Let_def unobserve_def)

lemma observed_reveal_callback:
  "observed (reveal_callback b s) = filter (\<lambda>n. \<not> reports n b) (observed s)"
proof (induction b arbitrary: s)
  case Nil
  show ?case by (simp add: reveal_callback_def reports_def)
next
  case (Cons en b)
  have "observed (reveal_callback (en # b) s) = observed (reveal_callback b (reveal_entry en s))"
    by (simp add: reveal_callback_def)
  also have "\<dots> = filter (\<lambda>n. \<not> reports n b) (observed (reveal_entry en s))"
    by (rule Cons.IH)
  also have "\<dots> = filter (\<lambda>n. \<not> reports n (en # b)) (observed s)"
    by (auto simp: observed_reveal_entry reports_def removeAll_filter_not_eq intro: filter_cong)
  finally show ?case .
qed

lemma elements_reveal_callback_other:
  "\<not> reports x b \<Longrightarrow> elements (reveal_callback b s) x = elements s x"
proof (induction b arbitrary: s)
  case Nil
  show ?case by (simp add: reveal_callback_def)
next
  case (Cons en b)
  from Cons.prems have nb: "\<not> reports x b" and ne: "\<not> (entry_target en = x \<and> isIntersecting en)"
    by (auto simp: reports_def)
  have "elements (reveal_callback (en # b) s) x = elements (reveal_callback b (reveal_entry en s)) x"
    by (simp add: reveal_callback_def)
  also have "\<dots> = elements (reveal_entry en s) x" by (rule Cons.IH [OF nb])
  also have "\<dots> = elements s x" using ne by (auto simp: reveal_entry_def Let_def upd_def)
  finally show ?case .
qed

lemma reveal_run_unobserved:
  "x \<notin> set (observed s) \<Longrightarrow> reveal_run bs s \<noteq> None \<Longrightarrow> filter (reports x) bs = []"
proof (induction bs arbitrary: s)
  case Nil
  show ?case by simp
next
  case (Cons b bs)
  from Cons.prems(2) have ok: "\<forall>en \<in> set b. entry_target en \<in> set (observed s)"
    and rest: "reveal_run bs (reveal_callback b s) \<noteq> None"
    by (auto split: if_splits)
  from ok Cons.prems(1) have nb: "\<not> reports x b" by (auto simp: reports_def)
  from Cons.prems(1) have "x \<notin> set (observed (reveal_callback b s))"
    by (simp add: observed_reveal_callback)
  from Cons.IH [OF this rest] nb show ?case by simp
qed

lemma reveal_run_once:
  "reveal_run bs s \<noteq> None \<Longrightarrow> length (filter (reports x) bs) \<le> 1"
proof (induction bs arbitrary: s)
  case Nil
  show ?case by simp
next
  case (Cons b bs)
  from Cons.prems have rest: "reveal_run bs (reveal_callback b s) \<noteq> None"
    by (auto split: if_splits)
  show ?case
  proof (cases "reports x b")
    case True
    then have "x \<notin> set (observed (reveal_callback b s))"
      by (simp add: observed_reveal_callback)
    from reveal_run_unobserved [OF this rest] True show ?thesis by simp
  next
    case False
    with Cons.IH [OF rest] show ?thesis by simp
  qed
qed

lemma style_reveal_callback:
  "style (elements (reveal_callback b s) x) prop =
     (if reports x b \<and> prop = ''opacity'' then ''1''
      else if reports x b \<and> prop = ''transform'' then ''translateY(0)''
      else style (elements s x) prop)"
proof (induction b arbitrary: s)
  case Nil
  show ?case by (simp add: reveal_callback_def reports_def)
next
  case (Cons en b)
  have one: "style (elements (reveal_entry en s) x) prop =
     (if entry_target en = x \<and> isIntersecting en \<and> prop = ''opacity'' then ''1''
      else if entry_target en = x \<and> isIntersecting en \<and> prop = ''transform'' then ''translateY(0)''
      else style (elements s x) prop)"
    by (simp add: reveal_entry_def Let_def upd_def set_style_def)
  have "style (elements (reveal_callback (en # b) s) x) prop =
        style (elements (reveal_callback b (reveal_entry en s)) x) prop"
    by (simp add: reveal_callback_def)
  also have "\<dots> = (if reports x b \<and> prop = ''opacity'' then ''1''
      else if reports x b \<and> prop = ''transform'' then ''translateY(0)''
      else style (elements (reveal_entry en s) x) prop)"
    by (rule Cons.IH)
  finally show ?case unfolding one by (auto simp: reports_def)
qed

lemma lazy_observed_lazy_entry:
  "lazy_observed (lazy_entry en s) =
     (if isIntersecting en then removeAll (entry_target en) (lazy_observed s) else lazy_observed s)"
  by (simp add: lazy_entry_def Let_def unobserve_def)

lemma lazy_observed_lazy_callback:
  "lazy_observed (lazy_callback b s) = filter (\<lambda>n. \<not> reports n b) (lazy_observed s)"
proof (induction b arbitrary: s)
  case Nil
  show ?case by (simp add: lazy_callback_def reports_def)
next
  case (Cons en b)
  have "lazy_observed (lazy_callback (en # b) s) = lazy_observed (lazy_callback b (lazy_entry en s))"
    by (simp add: lazy_callback_def)
  also have "\<dots> = filter (\<lambda>n. \<not> reports n b) (lazy_observed (lazy_entry en s))"
    by (rule Cons.IH)
  also have "\<dots> = filter (\<lambda>n. \<not> reports n (en # b)) (lazy_observed s)"
    by (auto simp: lazy_observed_lazy_entry reports_def removeAll_filter_not_eq intro: filter_cong)
  finally show ?case .
qed

lemma elements_lazy_callback_other:
  "\<not> reports x b \<Longrightarrow> elements (lazy_callback b s) x = elements s x"
proof (induction b arbitrary: s)
  case Nil
  show ?case by (simp add: lazy_callback_def)
next
  case (Cons en b)
  from Cons.prems have nb: "\<not> reports x b" and ne: "\<not> (entry_target en = x \<and> isIntersecting en)"
    by (auto simp: reports_def)
  have "elements (lazy_callback (en # b) s) x = elements (lazy_callback b (lazy_entry en s)) x"
    by (simp add: lazy_callback_def)
  also have "\<dots> = elements (lazy_entry en s) x" by (rule Cons.IH [OF nb])
  also have "\<dots> = elements s x" using ne by (auto simp: lazy_entry_def Let_def upd_def)
  finally show ?case .
qed

lemma loaded_lazy_callback:
  "reports x b \<Longrightarrow> class_contains ''loaded'' (elements (lazy_callback b s) x)"
proof (induction b arbitrary: s)
  case Nil
  then show ?case by (simp add: reports_def)
next
  case (Cons en b)
  have step: "lazy_callback (en # b) s = lazy_callback b (lazy_entry en s)"
    by (simp add: lazy_callback_def)
  show ?case
  proof (cases "reports x b")
    case True
    from Cons.IH [OF True] show ?thesis by (simp add: step)
  next
    case False
    with Cons.prems have en: "entry_target en = x" "isIntersecting en"
      by (auto simp: reports_def)
    have "class_contains ''loaded'' (elements (lazy_entry en s) x)"
      using en by (simp add: lazy_entry_def Let_def upd_def class_contains_def class_add_def)
    with elements_lazy_callback_other [OF False] show ?thesis by (simp add: step)
  qed
qed

lemma lazy_run_unobserved:
  "x \<notin> set (lazy_observed s) \<Longrightarrow> lazy_run bs s \<noteq> None \<Longrightarrow> filter (reports x) bs = []"
proof (induction bs arbitrary: s)
  case Nil
  show ?case by simp
next
  case (Cons b bs)
  from Cons.prems(2) have ok: "\<forall>en \<in> set b. entry_target en \<in> set (lazy_observed s)"
    and rest: "lazy_run bs (lazy_callback b s) \<noteq> None"
    by (auto split: if_splits)
  from ok Cons.prems(1) have nb: "\<not> reports x b" by (auto simp: reports_def)
  from Cons.prems(1) have "x \<notin> set (lazy_observed (lazy_callback b s))"
    by (simp add: lazy_observed_lazy_callback)
  from Cons.IH [OF this rest] nb show ?case by simp
qed

lemma lazy_run_once:
  "lazy_run bs s \<noteq> None \<Longrightarrow> length (filter (reports x) bs) \<le> 1"
proof (induction bs arbitrary: s)
  case Nil
  show ?case by simp
next
  case (Cons b bs)
  from Cons.prems have rest: "lazy_run bs (lazy_callback b s) \<noteq> None"
    by (auto split: if_splits)
  show ?case
  proof (cases "reports x b")
    case True
    then have "x \<notin> set (lazy_observed (lazy_callback b s))"
      by (simp add: lazy_observed_lazy_callback)
    from lazy_run_unobserved [OF this rest] True show ?thesis by simp
  next
    case False
    with Cons.IH [OF rest] show ?thesis by simp
  qed
qed

text \<open>
  C8: in every run of batches that the browser can deliver to the reveal observer
  (each batch reporting only current targets), an element is reported as intersecting in
  at most one batch, however often it enters the viewport: the first such batch removes
  it from the targets. A callback that does not report the element leaves it untouched;
  the one that does sets opacity \<open>1\<close> and transform \<open>translateY(0)\<close>. The same holds
  for the observer of lazy backgrounds and the class \<open>loaded\<close>.
\<close>

theorem observers_fire_once:
  "(reveal_run bs s \<noteq> None \<longrightarrow> length (filter (reports x) bs) \<le> 1)
   \<and> (lazy_run bs s \<noteq> None \<longrightarrow> length (filter (reports x) bs) \<le> 1)
   \<and> (\<not> reports x b \<longrightarrow> elements (reveal_callback b s) x = elements s x
                         \<and> elements (lazy_callback b s) x = elements s x)
   \<and> (reports x b \<longrightarrow> style (elements (reveal_callback b s) x) ''opacity'' = ''1''
                     \<and> style (elements (reveal_callback b s) x) ''transform'' = ''translateY(0)''
                     \<and> x \<notin> set (observed (reveal_callback b s))
                     \<and> class_contains ''loaded'' (elements (lazy_callback b s) x)
                     \<and> x \<notin> set (lazy_observed (lazy_callback b s)))"
  using reveal_run_once [of bs s x] lazy_run_once [of bs s x]
    elements_reveal_callback_other [of x b s] elements_lazy_callback_other [of x b s]
    loaded_lazy_callback [of x b s]
  by (simp add: style_reveal_callback observed_reveal_callback lazy_observed_lazy_callback)

lemma observing_targets: "observed observing = [10, 14, 20]" "lazy_observed observing = [17, 18]"
  by (simp_all add: observing_def reveal_section_def lazy_section_def modern_def example_doc_def
      hide_and_observe_def Let_def observe_def upd_def example_page_def fresh_page_def)

theorem observers_fire_once_witness:
  "reveal_run [[entered 10, left 14], [entered 14], [left 20], [entered 20]] observing \<noteq> None
   \<and> length (filter (reports 10) [[entered 10, left 14], [entered 14], [left 20], [entered 20]]) \<le> 1
   \<and> lazy_run [[entered 17], [left 18], [entered 18]] observing \<noteq> None
   \<and> length (filter (reports 17) [[entered 17], [left 18], [entered 18]]) \<le> 1
   \<and> reports 10 [entered 10, left 14]
   \<and> style (elements (reveal_callback [entered 10, left 14] observing) 10) ''opacity'' = ''1''
   \<and> reveal_run [[entered 10], [left 10, entered 10]] observing = None"
proof -
  have r: "reveal_run [[entered 10, left 14], [entered 14], [left 20], [entered 20]] observing \<noteq> None"
    by (simp add: observed_reveal_callback observing_targets reports_def entered_def left_def)
  have l: "lazy_run [[entered 17], [left 18], [entered 18]] observing \<noteq> None"
    by (simp add: lazy_observed_lazy_callback observing_targets reports_def entered_def left_def)
  have p: "reports 10 [entered 10, left 14]"
    by (simp add: reports_def entered_def)
  have n: "reveal_run [[entered 10], [left 10, entered 10]] observing = None"
    by (simp add: observed_reveal_callback observing_targets reports_def entered_def left_def)
  from observers_fire_once [of "[[entered 10, left 14], [entered 14], [left 20], [entered 20]]" observing 10
      "[entered 10, left 14]"]
    observers_fire_once [of "[[entered 17], [left 18], [entered 18]]" observing 17 "[entered 17]"]
    r l p n
  show ?thesis by simp
qed

subsection \<open>Timers\<close>

declare decimal.simps [simp del]

lemma insort_key_snoc:
  "f x \<le> f y \<Longrightarrow> insort_key f x (zs @ [y]) = insort_key f x zs @ [y]"
  by (induction zs) simp_all

lemma sort_key_snoc:
  "\<forall>x \<in> set xs. f x \<le> f y \<Longrightarrow> sort_key f (xs @ [y]) = sort_key f xs @ [y]"
proof (induction xs)
  case Nil
  show ?case by simp
next
  case (Cons x xs)
  then have "sort_key f (xs @ [y]) = sort_key f xs @ [y]" by simp
  moreover have "\<forall>z \<in> set (sort_key f xs). f z \<le> f y" using Cons.prems by simp
  ultimately show ?case using Cons.prems
    by (simp add: insort_key_snoc)
qed

lemma due_timers_snoc:
  assumes "timers s = ts @ [(i, t, k)]"
  shows "due_timers t s = sort_key (\<lambda>tm. fst (snd tm)) (filter (\<lambda>tm. fst (snd tm) \<le> t) ts) @ [(i, t, k)]"
  using assms by (simp add: due_timers_def sort_key_snoc)

lemma snd_fire:
  "snd (fire x s) =
     (if fst x \<in> fst ` set (timers s)
      then snd (run_task (snd (snd x))
                 (s\<lparr>now := max (now s) (fst (snd x)),
                    timers := filter (\<lambda>y. fst y \<noteq> fst x) (timers s)\<rparr>))
      else s)"
  by (simp add: fire_def Let_def case_prod_beta)

lemma snd_fire_all_Cons: "snd (fire_all (x # xs) s) = snd (fire_all xs (snd (fire x s)))"
  by (simp add: Let_def case_prod_beta)

lemma snd_fire_all_append:
  "snd (fire_all (xs @ ys) s) = snd (fire_all ys (snd (fire_all xs s)))"
  by (induction xs arbitrary: s) (simp_all add: Let_def case_prod_beta)

lemma snd_advance:
  "snd (advance t s) =
     (snd (fire_all (due_timers t s) s))\<lparr>now := max (now (snd (fire_all (due_timers t s) s))) t\<rparr>"
  by (simp add: advance_def Let_def case_prod_beta)

lemma timers_upd [simp]: "timers (upd n f s) = timers s"
  by (simp add: upd_def)

lemma timeout_upd [simp]: "timeout (upd n f s) = timeout s"
  by (simp add: upd_def)

lemma run_task_keeps:
  assumes "tm \<in> set (timers s)" and "timeout s \<noteq> Some (fst tm)"
  shows "tm \<in> set (timers (snd (run_task k s))) \<and> timeout (snd (run_task k s)) = timeout s"
proof (cases k)
  case (Later h)
  with assms show ?thesis
    by (cases h; cases "timeout s")
       (auto simp: handleScroll_func_def clearTimeout_def Let_def upd_def)
qed (use assms in \<open>simp_all\<close>)

lemma fire_keeps:
  assumes "tm \<in> set (timers s)" and "timeout s \<noteq> Some (fst tm)" and "fst x \<noteq> fst tm"
  shows "tm \<in> set (timers (snd (fire x s))) \<and> timeout (snd (fire x s)) = timeout s"
proof (cases "fst x \<in> fst ` set (timers s)")
  case True
  let ?s1 = "s\<lparr>now := max (now s) (fst (snd x)), timers := filter (\<lambda>y. fst y \<noteq> fst x) (timers s)\<rparr>"
  from assms have "tm \<in> set (timers ?s1)" "timeout ?s1 \<noteq> Some (fst tm)" by auto
  from run_task_keeps [OF this, of "snd (snd x)"] True show ?thesis
    by (simp add: snd_fire)
next
  case False
  with assms show ?thesis by (simp add: snd_fire)
qed

lemma fire_all_keeps:
  assumes "tm \<in> set (timers s)" and "timeout s \<noteq> Some (fst tm)"
    and "\<forall>x \<in> set xs. fst x \<noteq> fst tm"
  shows "tm \<in> set (timers (snd (fire_all xs s))) \<and> timeout (snd (fire_all xs s)) = timeout s"
  using assms
proof (induction xs arbitrary: s)
  case Nil
  then show ?case by simp
next
  case (Cons x xs)
  from Cons.prems have ne: "fst x \<noteq> fst tm" by simp
  from fire_keeps [OF Cons.prems(1,2) ne]
  have 1: "tm \<in> set (timers (snd (fire x s)))" "timeout (snd (fire x s)) \<noteq> Some (fst tm)"
    and t: "timeout (snd (fire x s)) = timeout s"
    using Cons.prems(2) by simp_all
  from Cons.prems(3) have 2: "\<forall>x \<in> set xs. fst x \<noteq> fst tm" by simp
  from Cons.IH [OF 1 2] t show ?case
    by (simp add: snd_fire_all_Cons del: fire_all.simps)
qed

text \<open>The last timer set, when it is due no earlier than all the others, runs last.\<close>

lemma advance_last:
  assumes ts: "timers s = ts @ [(i, t, k)]"
    and ids: "\<forall>x \<in> set ts. fst x \<noteq> i"
    and tmo: "timeout s \<noteq> Some i"
  shows "\<exists>sa. elements (snd (advance t s)) = elements (snd (run_task k sa))"
proof -
  let ?xs = "sort_key (\<lambda>tm. fst (snd tm)) (filter (\<lambda>tm. fst (snd tm) \<le> t) ts)"
  let ?sa = "snd (fire_all ?xs s)"
  have mem: "(i, t, k) \<in> set (timers s)" using ts by simp
  have "\<forall>x \<in> set ?xs. fst x \<noteq> fst (i, t, k)" using ids by simp
  from fire_all_keeps [OF mem _ this] tmo
  have pending: "(i, t, k) \<in> set (timers ?sa)" by simp
  then have "i \<in> fst ` set (timers ?sa)" by force
  then have "elements (snd (fire (i, t, k) ?sa)) =
     elements (snd (run_task k (?sa\<lparr>now := max (now ?sa) t,
                                    timers := filter (\<lambda>x. fst x \<noteq> i) (timers ?sa)\<rparr>)))"
    by (simp add: snd_fire)
  moreover have "elements (snd (advance t s)) = elements (snd (fire (i, t, k) ?sa))"
    by (simp add: snd_advance due_timers_snoc [OF ts] snd_fire_all_append snd_fire_all_Cons
        del: fire_all.simps(2))
  ultimately show ?thesis by metis
qed

subsection \<open>The invariant of the timer ids\<close>

lemma timers_ok_fresh: "timers_ok fresh_page"
  by (simp add: timers_ok_def fresh_page_def)

lemma timers_ok_fields [simp]:
  "timers_ok (upd n f s) = timers_ok s"
  "timers_ok (focus n s) = timers_ok s"
  "timers_ok (s\<lparr>body_overflow := x\<rparr>) = timers_ok s"
  "timers_ok (s\<lparr>animations := a\<rparr>) = timers_ok s"
  "timers_ok (s\<lparr>history := h\<rparr>) = timers_ok s"
  "timers_ok (s\<lparr>lastScrollY := y\<rparr>) = timers_ok s"
  "timers_ok (s\<lparr>cartCount := c\<rparr>) = timers_ok s"
  "timers_ok (s\<lparr>announcements := as\<rparr>) = timers_ok s"
  "timers_ok (s\<lparr>next_announcement := na\<rparr>) = timers_ok s"
  "timers_ok (s\<lparr>now := t\<rparr>) = timers_ok s"
  by (simp_all add: timers_ok_def upd_def focus_def split: option.splits)

lemma timers_ok_setTimeout: "timers_ok s \<Longrightarrow> timers_ok (snd (setTimeout k d s))"
  by (auto simp: timers_ok_def setTimeout_def list_all_iff split: option.splits)

lemma timers_ok_clearTimeout: "timers_ok s \<Longrightarrow> timers_ok (clearTimeout h s)"
  by (auto simp: timers_ok_def clearTimeout_def list_all_iff split: option.splits)

lemma timers_ok_filter:
  "timers_ok s \<Longrightarrow> timers_ok (s\<lparr>timers := filter P (timers s)\<rparr>)"
  by (auto simp: timers_ok_def list_all_iff split: option.splits)

lemma timers_ok_executedFunction: "timers_ok s \<Longrightarrow> timers_ok (executedFunction h w s)"
  by (cases "timeout s")
     (auto simp: timers_ok_def executedFunction_def clearTimeout_def setTimeout_def Let_def list_all_iff)

lemma timers_ok_announce: "timers_ok s \<Longrightarrow> timers_ok (announceToScreenReader msg s)"
  using timers_ok_setTimeout [of "s\<lparr>announcements := announcements s @ [(next_announcement s, msg)],
      next_announcement := Suc (next_announcement s)\<rparr>"]
  by (simp add: announceToScreenReader_def Let_def)

lemma timers_ok_updateCartCount: "timers_ok s \<Longrightarrow> timers_ok (updateCartCount cl s)"
  by (cases cl) (simp_all add: updateCartCount_def Let_def)

lemma timers_ok_close_menu: "timers_ok (close_menu t m s) = timers_ok s"
  by (simp add: close_menu_def Let_def)

lemma timers_ok_handle:
  assumes "timers_ok s"
  shows "timers_ok (snd (snd (handle rt d l e s)))"
proof (cases l)
  case (ToggleClick t m)
  with assms show ?thesis by (simp add: toggle_click_def Let_def)
next
  case (NavLinkClick a t m)
  with assms show ?thesis by (simp add: link_click_def timers_ok_close_menu)
next
  case (DocumentClick t m)
  with assms show ?thesis by (simp add: document_click_def timers_ok_close_menu)
next
  case (AnchorClick a)
  with assms show ?thesis
    by (simp add: anchor_click_def Let_def split: option.splits sum.splits)
next
  case (WindowScroll h)
  with assms show ?thesis by (simp add: window_scroll_def timers_ok_executedFunction)
next
  case (AddToCartClick b name)
  with assms show ?thesis
    by (simp add: add_to_cart_click_def Let_def timers_ok_setTimeout timers_ok_updateCartCount
        timers_ok_announce)
next
  case (QuickViewClick q name)
  with assms show ?thesis by (simp add: quick_view_click_def timers_ok_announce)
next
  case (CardKeydown c q name)
  with assms show ?thesis
    by (cases q) (simp_all add: card_keydown_def quick_view_click_def Let_def timers_ok_announce)
next
  case (NewsletterSubmit f)
  have "timers_ok (snd (snd (newsletter_submit i b e s)))" for i b
    using assms
    by (cases i; cases b)
       (simp_all add: newsletter_submit_def Let_def timers_ok_announce timers_ok_setTimeout)
  with NewsletterSubmit show ?thesis by (simp split: option.splits)
next
  case WindowLoad
  with assms show ?thesis by (simp add: timers_ok_setTimeout)
next
  case (DocumentKeydown t m)
  with assms show ?thesis
    by (simp add: document_keydown_def Let_def split: option.splits)
next
  case (MenuKeydown m f l')
  with assms show ?thesis
    by (simp add: menu_keydown_def focus_opt_def split: option.splits)
qed

lemma timers_ok_run_task: "timers_ok s \<Longrightarrow> timers_ok (snd (run_task k s))"
proof (cases k)
  case (Later h)
  assume "timers_ok s"
  then have "timers_ok (clearTimeout (timeout s) s)" by (rule timers_ok_clearTimeout)
  with Later show ?thesis
    by (cases h) (simp_all add: handleScroll_func_def Let_def)
qed simp_all

lemma timers_ok_fire_prep:
  "timers_ok s \<Longrightarrow> timers_ok (s\<lparr>now := a, timers := filter P (timers s)\<rparr>)"
  by (auto simp: timers_ok_def list_all_iff split: option.splits)

lemma timers_ok_fire: "timers_ok s \<Longrightarrow> timers_ok (snd (fire x s))"
  by (simp add: snd_fire timers_ok_run_task timers_ok_fire_prep)

lemma timers_ok_fire_all: "timers_ok s \<Longrightarrow> timers_ok (snd (fire_all xs s))"
  by (induction xs arbitrary: s)
     (simp_all add: snd_fire_all_Cons timers_ok_fire del: fire_all.simps(2))

lemma timers_ok_advance: "timers_ok s \<Longrightarrow> timers_ok (snd (advance t s))"
  by (simp add: snd_advance timers_ok_fire_all)

subsection \<open>The newsletter form\<close>

lemma textContent_reset:
  "k = ResetSubmit btn T \<or> k = ResetAddToCart btn T \<Longrightarrow>
   textContent (elements (snd (run_task k sa)) btn) = T
   \<and> style (elements (snd (run_task k sa)) btn) ''backgroundColor'' = []"
  by (auto simp: upd_def set_text_def set_style_def)

text \<open>
  A reset that is set right after an announcement, on a page with proper timer ids, has
  run when the clock reaches its due time, and nothing due runs after it.
\<close>

lemma reverts_after_delay:
  assumes ok: "timers_ok s"
    and ts: "timers s1 = timers s @ [(next_timer s, d0, k0), (Suc (next_timer s), t, k)]"
    and tmo: "timeout s1 = timeout s"
    and k: "k = ResetSubmit btn T \<or> k = ResetAddToCart btn T"
  shows "textContent (elements (snd (advance t s1)) btn) = T
       \<and> style (elements (snd (advance t s1)) btn) ''backgroundColor'' = []"
proof -
  from ok have below: "\<forall>x \<in> set (timers s). fst x < next_timer s"
    and tm: "timeout s \<noteq> Some (Suc (next_timer s))"
    by (auto simp: timers_ok_def list_all_iff split: option.splits)
  have ts': "timers s1 = (timers s @ [(next_timer s, d0, k0)]) @ [(Suc (next_timer s), t, k)]"
    using ts by simp
  have ids: "\<forall>x \<in> set (timers s @ [(next_timer s, d0, k0)]). fst x \<noteq> Suc (next_timer s)"
    using below by auto
  from advance_last [OF ts' ids] tm tmo
  obtain sa where "elements (snd (advance t s1)) = elements (snd (run_task k sa))" by auto
  with textContent_reset [OF k, of sa] show ?thesis by simp
qed

lemma newsletter_submit_valid:
  assumes "input_value (elements s inp) = email" and "email \<noteq> []" and "isValidEmail email"
  shows "fst (newsletter_submit (Some inp) (Some btn) e s) = Completed"
    and "fst (snd (newsletter_submit (Some inp) (Some btn) e s)) = preventDefault e"
    and "announcements (snd (snd (newsletter_submit (Some inp) (Some btn) e s))) =
           announcements s @ [(next_announcement s, ''Successfully subscribed to newsletter'')]"
    and "input_value (elements (snd (snd (newsletter_submit (Some inp) (Some btn) e s))) inp) = []"
    and "textContent (elements (snd (snd (newsletter_submit (Some inp) (Some btn) e s))) btn) = ''Subscribed!''"
    and "timers (snd (snd (newsletter_submit (Some inp) (Some btn) e s))) =
           timers s @ [(next_timer s, now s + 1000, RemoveAnnouncement (next_announcement s)),
                       (Suc (next_timer s), now s + 3000, ResetSubmit btn (textContent (elements s btn)))]"
    and "timeout (snd (snd (newsletter_submit (Some inp) (Some btn) e s))) = timeout s"
  using assms
  by (simp_all add: newsletter_submit_def Let_def announceToScreenReader_def setTimeout_def
      upd_def set_text_def set_style_def)

lemma newsletter_submit_invalid:
  assumes "input_value (elements s inp) = [] \<or> \<not> isValidEmail (input_value (elements s inp))"
  shows "newsletter_submit (Some inp) sb e s =
           (Completed, preventDefault e,
            focus inp (announceToScreenReader ''Please enter a valid email address'' s))"
  using assms by (auto simp: newsletter_submit_def Let_def)

text \<open>
  One valid submit on its own: when nothing else happens until the clock reaches
  3000 ms after it, the button then shows the label it had when the form was submitted.
\<close>

lemma newsletter_reverts_undisturbed:
  assumes "timers_ok s" and "newsletter_form d = Some fm"
    and "email_input fm = Some inp" and "submit_button fm = Some btn"
    and "input_value (elements s inp) \<noteq> []" and "isValidEmail (input_value (elements s inp))"
  shows "textContent (elements (run rt d [Dispatch (NewsletterSubmit f) e, Wait 3000] s) btn)
           = textContent (elements s btn)"
proof -
  let ?s1 = "snd (snd (newsletter_submit (Some inp) (Some btn) e s))"
  note v = newsletter_submit_valid [OF refl assms(5,6), of btn e]
  have n: "now ?s1 = now s"
    using assms(5,6)
    by (simp add: newsletter_submit_def Let_def announceToScreenReader_def setTimeout_def upd_def)
  from reverts_after_delay [OF assms(1) v(6) v(7)]
  have "textContent (elements (snd (advance (now s + 3000) ?s1)) btn) = textContent (elements s btn)"
    by simp
  with n assms(2,3,4) show ?thesis by (simp add: run_def)
qed

lemma valid_email_example: "isValidEmail ''user@example.com''" "\<not> isValidEmail ''not-an-email''"
  by (simp_all add: isValidEmail_def regex_test_def re_def some_def whitespace_def Let_def)

lemmas script_defs =
  script_def nav_section_def anchors_section_def header_section_def cards_section_def
  card_listeners_def newsletter_section_def reveal_section_def lazy_section_def
  load_section_def escape_section_def focus_trap_section_def firstFocusable_def
  lastFocusable_def hide_and_observe_def observe_def

lemmas example_defs =
  modern_def example_doc_def example_page_def fresh_page_def blank_def click_on_def

lemma script_example:
  "fst (script modern example_doc example_page) = Completed"
  "fst (snd (script modern example_doc example_page)) =
     [ToggleClick 1 2, NavLinkClick 3 1 2, NavLinkClick 4 1 2, DocumentClick 1 2,
      AnchorClick 3, AnchorClick 4, AnchorClick 6, WindowScroll (Some 5),
      AddToCartClick 11 ''Silk Bodysuit'', QuickViewClick 12 ''Silk Bodysuit'',
      CardKeydown 10 (Some 12) ''Silk Bodysuit'',
      AddToCartClick 15 ''Lace Bodysuit'', CardKeydown 14 None ''Lace Bodysuit'',
      NewsletterSubmit 7, WindowLoad, DocumentKeydown (Some 1) (Some 2),
      MenuKeydown 2 (Some 3) (Some 4)]"
  by (simp_all add: script_defs example_defs upd_def Let_def set_text_def setAttribute_def)

lemma loaded_facts:
  "textContent (elements loaded 9) = ''Subscribe''"
  "textContent (elements loaded 11) = ''Add to Cart''"
  "textContent (elements loaded 6) = ''Cart (0)''"
  "input_value (elements loaded 8) = []"
  "rendered (elements loaded 8)" "focusable_by_default (elements loaded 8)"
  "timers loaded = []" "next_timer loaded = 0" "timeout loaded = None" "now loaded = 0"
  "announcements loaded = []" "next_announcement loaded = 0" "cartCount loaded = 0"
  "activeElement loaded = None"
  by (simp_all add: loaded_def script_defs example_defs upd_def Let_def set_text_def
      setAttribute_def set_style_def)

lemma example_doc_facts:
  "newsletter_form example_doc = Some \<lparr>form_node = 7, email_input = Some 8, submit_button = Some 9\<rparr>"
  "cart_link example_doc = Some 6"
  by (simp_all add: example_doc_def)

lemmas run_defs =
  run_def submit_def add_silk_def newsletter_submit_def add_to_cart_click_def
  updateCartCount_def announceToScreenReader_def setTimeout_def advance_def due_timers_def
  fire_def upd_def set_text_def set_style_def focus_def Let_def click_on_def
  preventDefault_def stopPropagation_def

text \<open>
  C5 on the example page, with the listener that the script attached to the form. With
  \<open>not-an-email\<close> or an empty field the submit announces the error, focuses the field
  and leaves its value; with \<open>user@example.com\<close> it announces the success and empties
  the field, and after 3000 ms the button reads "Subscribe" again. When the form is
  submitted a second time 2000 ms after the first, the second submit takes
  "Subscribed!" for the original text: once every timer has run, the button still reads
  "Subscribed!".
\<close>

theorem newsletter_label_stuck:
  "NewsletterSubmit 7 \<in> set (fst (snd (script modern example_doc example_page)))
   \<and> textContent (elements loaded 9) = ''Subscribe''
   \<and> announcements (run modern example_doc [Fill 8 ''not-an-email'', submit] loaded)
       = [(0, ''Please enter a valid email address'')]
   \<and> activeElement (run modern example_doc [Fill 8 ''not-an-email'', submit] loaded) = Some 8
   \<and> input_value (elements (run modern example_doc [Fill 8 ''not-an-email'', submit] loaded) 8)
       = ''not-an-email''
   \<and> announcements (run modern example_doc [submit] loaded)
       = [(0, ''Please enter a valid email address'')]
   \<and> announcements (run modern example_doc [Fill 8 ''user@example.com'', submit] loaded)
       = [(0, ''Successfully subscribed to newsletter'')]
   \<and> input_value (elements (run modern example_doc [Fill 8 ''user@example.com'', submit] loaded) 8)
       = []
   \<and> textContent (elements (run modern example_doc
         [Fill 8 ''user@example.com'', submit, Wait 3000] loaded) 9) = ''Subscribe''
   \<and> textContent (elements (run modern example_doc
         [Fill 8 ''user@example.com'', submit, Wait 2000,
          Fill 8 ''user@example.com'', submit, Wait 60000] loaded) 9) = ''Subscribed!''
   \<and> timers (run modern example_doc
         [Fill 8 ''user@example.com'', submit, Wait 2000,
          Fill 8 ''user@example.com'', submit, Wait 60000] loaded) = []"
  by (simp add: script_example loaded_facts valid_email_example run_defs example_doc_facts
      can_focus_def)

subsection \<open>The cart counter\<close>

lemma cartCount_simps [simp]:
  "cartCount (upd n f s) = cartCount s"
  "cartCount (focus n s) = cartCount s"
  "cartCount (announceToScreenReader msg s) = cartCount s"
  "cartCount (snd (setTimeout k d s)) = cartCount s"
  "cartCount (clearTimeout h s) = cartCount s"
  "cartCount (close_menu t m s) = cartCount s"
  "cartCount (executedFunction hdr w s) = cartCount s"
  by (simp_all add: upd_def focus_def announceToScreenReader_def setTimeout_def Let_def
      clearTimeout_def close_menu_def executedFunction_def case_prod_beta split: option.splits)

lemma cartCount_run_task: "cartCount (snd (run_task k s)) = cartCount s"
proof (cases k)
  case (Later h)
  then show ?thesis by (cases h) (simp_all add: handleScroll_func_def Let_def)
qed simp_all

lemma cartCount_fire_all: "cartCount (snd (fire_all xs s)) = cartCount s"
  by (induction xs arbitrary: s)
     (simp_all add: snd_fire_all_Cons snd_fire cartCount_run_task del: fire_all.simps(2))

lemma cartCount_advance: "cartCount (snd (advance t s)) = cartCount s"
  by (simp add: snd_advance cartCount_fire_all)

lemma add_to_cart_click_effect:
  "fst (add_to_cart_click cl btn name e s) = Completed"
  "fst (snd (add_to_cart_click cl btn name e s)) = stopPropagation e"
  "cartCount (snd (snd (add_to_cart_click cl btn name e s))) = cartCount s + 1"
  "cl = Some l \<Longrightarrow> textContent (elements (snd (snd (add_to_cart_click cl btn name e s))) l)
      = ''Cart ('' @ decimal (cartCount s + 1) @ '')''"
  "timers (snd (snd (add_to_cart_click cl btn name e s))) =
     timers s @ [(next_timer s, now s + 1000, RemoveAnnouncement (next_announcement s)),
                 (Suc (next_timer s), now s + 2000, ResetAddToCart btn (textContent (elements s btn)))]"
  "timeout (snd (snd (add_to_cart_click cl btn name e s))) = timeout s"
  "now (snd (snd (add_to_cart_click cl btn name e s))) = now s"
  by (cases cl; simp add: add_to_cart_click_def Let_def announceToScreenReader_def setTimeout_def
      updateCartCount_def upd_def set_text_def set_style_def)+

lemma cartCount_handle:
  "cartCount (snd (snd (handle rt d l e s))) =
     cartCount s + (if adds_to_cart (Dispatch l e) then 1 else 0)"
proof (cases l)
  case (AnchorClick a)
  then show ?thesis by (simp add: anchor_click_def Let_def split: option.splits sum.splits)
next
  case (CardKeydown c q name)
  then show ?thesis
    by (cases q) (simp_all add: card_keydown_def quick_view_click_def Let_def)
next
  case (NewsletterSubmit f)
  have "cartCount (snd (snd (newsletter_submit i b e s))) = cartCount s" for i b
    by (cases i; cases b) (simp_all add: newsletter_submit_def Let_def)
  with NewsletterSubmit show ?thesis by (simp split: option.splits)
next
  case (DocumentKeydown t m)
  then show ?thesis by (simp add: document_keydown_def Let_def split: option.splits)
next
  case (MenuKeydown m f l')
  then show ?thesis by (simp add: menu_keydown_def focus_opt_def split: option.splits)
qed (simp_all add: toggle_click_def link_click_def document_click_def window_scroll_def
      quick_view_click_def add_to_cart_click_effect Let_def)

text \<open>
  The counter counts the clicks on "add to cart" buttons: whatever else happens on the
  page, it grows by one with each of them and never otherwise.
\<close>

lemma cart_counts_clicks:
  "cartCount (run rt d steps s) = cartCount s + length (filter adds_to_cart steps)"
  unfolding run_def
proof (induction steps arbitrary: s)
  case Nil
  show ?case by simp
next
  case (Cons x xs)
  have "cartCount (do_step rt d x s) = cartCount s + (if adds_to_cart x then 1 else 0)"
    by (cases x) (simp_all add: cartCount_handle cartCount_advance)
  with Cons.IH [of "do_step rt d x s"] show ?case by simp
qed

text \<open>The click listener stops the propagation, so no listener of an ancestor runs.\<close>

lemma propagate_add_to_cart:
  "propagate (handle rt d (AddToCartClick btn name) # hs) e s =
     ([Completed], snd (handle rt d (AddToCartClick btn name) e s))"
  by (simp add: add_to_cart_click_def Let_def stopPropagation_def)

text \<open>
  One click on its own: when nothing else happens until the clock reaches 2000 ms after
  it, the button then shows the label it had when it was clicked, and the counter is as
  the click left it.
\<close>

lemma add_to_cart_reverts_undisturbed:
  assumes "timers_ok s"
  shows "textContent (elements (run rt d [Dispatch (AddToCartClick btn name) e, Wait 2000] s) btn)
           = textContent (elements s btn)"
    and "cartCount (run rt d [Dispatch (AddToCartClick btn name) e, Wait 2000] s) = cartCount s + 1"
proof -
  have "textContent (elements (snd (advance (now s + 2000)
          (snd (snd (add_to_cart_click (cart_link d) btn name e s))))) btn)
        = textContent (elements s btn)
      \<and> style (elements (snd (advance (now s + 2000)
          (snd (snd (add_to_cart_click (cart_link d) btn name e s))))) btn) ''backgroundColor'' = []"
    by (rule reverts_after_delay [OF assms add_to_cart_click_effect(5) add_to_cart_click_effect(6)])
       simp
  then show "textContent (elements (run rt d [Dispatch (AddToCartClick btn name) e, Wait 2000] s) btn)
           = textContent (elements s btn)"
    by (simp add: run_def add_to_cart_click_effect(7))
  show "cartCount (run rt d [Dispatch (AddToCartClick btn name) e, Wait 2000] s) = cartCount s + 1"
    by (simp add: cart_counts_clicks)
qed

text \<open>
  C7 on the example page, with the listener that the script attached to the button of
  the first card. One click raises the counter to 1, writes \<open>Cart (1)\<close> into the cart
  link and shows "Added!", and after 2000 ms the button reads "Add to Cart" again. Of two
  clicks 500 ms apart the second takes "Added!" for the original text: the counter is 2,
  and once every timer has run the button still reads "Added!".
\<close>

theorem add_to_cart_label_stuck:
  "AddToCartClick 11 ''Silk Bodysuit'' \<in> set (fst (snd (script modern example_doc example_page)))
   \<and> textContent (elements loaded 11) = ''Add to Cart''
   \<and> cartCount (run modern example_doc [add_silk] loaded) = 1
   \<and> textContent (elements (run modern example_doc [add_silk] loaded) 6) = ''Cart (1)''
   \<and> textContent (elements (run modern example_doc [add_silk] loaded) 11) = ''Added!''
   \<and> textContent (elements (run modern example_doc [add_silk, Wait 2000] loaded) 11) = ''Add to Cart''
   \<and> cartCount (run modern example_doc [add_silk, Wait 500, add_silk, Wait 60000] loaded) = 2
   \<and> textContent (elements (run modern example_doc
         [add_silk, Wait 500, add_silk, Wait 60000] loaded) 11) = ''Added!''
   \<and> timers (run modern example_doc [add_silk, Wait 500, add_silk, Wait 60000] loaded) = []"
  by (simp add: script_example loaded_facts run_defs example_doc_facts decimal.simps)

subsection \<open>Anchor links and missing capabilities\<close>

text \<open>
  C4 (amended): the script attaches the click listener to every anchor whose
  \<open>href\<close> starts with \<open>#\<close>, and the listener has no fall-back. Without
  \<open>requestAnimationFrame\<close>, a click on an anchor whose target exists cancels the
  default action and then throws a ReferenceError, leaving the page as it was. In every
  runtime a click on \<open>#\<close> or \<open>#cart\<close>, or on an anchor whose \<open>href\<close> selects no
  element, does nothing and does not throw, and an \<open>href\<close> that is no selector makes
  the listener throw the SyntaxError of \<open>document.querySelector\<close>.
\<close>

theorem anchor_click_no_fallback:
  assumes "attributes (elements s a) ''href'' = Some href"
  shows "anchors_section d ls s0 = (Completed, ls @ map AnchorClick (hash_anchors d), s0)
       \<and> (href = ''#'' \<or> href = ''#cart'' \<longrightarrow>
            handle rt d (AnchorClick a) e s = (Completed, e, s))
       \<and> (href \<noteq> ''#'' \<and> href \<noteq> ''#cart'' \<longrightarrow>
            (querySelector d href = Inr None \<longrightarrow>
               handle rt d (AnchorClick a) e s = (Completed, e, s))
          \<and> (\<forall>err. querySelector d href = Inl err \<longrightarrow>
               handle rt d (AnchorClick a) e s = (Threw err, e, s))
          \<and> (\<forall>tgt. querySelector d href = Inr (Some tgt) \<and> \<not> has_requestAnimationFrame rt \<longrightarrow>
               handle rt d (AnchorClick a) e s = (Threw ReferenceError, preventDefault e, s)))"
  using assms by (auto simp: anchors_section_def anchor_click_def Let_def)

lemma example_queries:
  "querySelector example_doc ''#about'' = Inr (Some 20)"
  "querySelector example_doc ''#reviews'' = Inr None"
  "querySelector example_doc ''#1st'' = Inl SyntaxError"
  "querySelector example_doc ''#!'' = Inl SyntaxError"
  by (simp_all add: example_doc_def css_identifier_def ident_start_def ident_char_def
      ascii_digit_def)

lemma example_hrefs:
  "attributes (elements loaded 3) ''href'' = Some ''#about''"
  "attributes (elements loaded 4) ''href'' = Some ''#''"
  "attributes (elements loaded 6) ''href'' = Some ''#cart''"
  by (simp_all add: loaded_def script_defs example_defs upd_def Let_def set_text_def
      setAttribute_def set_style_def)

theorem anchor_click_no_fallback_witness:
  "attributes (elements loaded 3) ''href'' = Some ''#about''
   \<and> attributes (elements loaded 4) ''href'' = Some ''#''
   \<and> attributes (elements (upd 4 (setAttribute ''href'' ''#reviews'') loaded) 4) ''href'' = Some ''#reviews''
   \<and> attributes (elements (upd 4 (setAttribute ''href'' ''#1st'') loaded) 4) ''href'' = Some ''#1st''
   \<and> querySelector example_doc ''#about'' = Inr (Some 20) \<and> \<not> has_requestAnimationFrame bare
   \<and> querySelector example_doc ''#reviews'' = Inr None
   \<and> querySelector example_doc ''#1st'' = Inl SyntaxError
   \<and> AnchorClick 3 \<in> set (fst (snd (anchors_section example_doc [] example_page)))
   \<and> handle bare example_doc (AnchorClick 3) (click_on 3) loaded
        = (Threw ReferenceError, preventDefault (click_on 3), loaded)
   \<and> handle bare example_doc (AnchorClick 4) (click_on 4) loaded = (Completed, click_on 4, loaded)
   \<and> fst (handle bare example_doc (AnchorClick 4) (click_on 4)
            (upd 4 (setAttribute ''href'' ''#reviews'') loaded)) = Completed
   \<and> fst (handle bare example_doc (AnchorClick 4) (click_on 4)
            (upd 4 (setAttribute ''href'' ''#1st'') loaded)) = Threw SyntaxError"
proof -
  have r: "\<not> has_requestAnimationFrame bare" by (simp add: bare_def)
  have h: "attributes (elements (upd 4 (setAttribute ''href'' ''#reviews'') loaded) 4) ''href'' = Some ''#reviews''"
    "attributes (elements (upd 4 (setAttribute ''href'' ''#1st'') loaded) 4) ''href'' = Some ''#1st''"
    by simp_all
  have l: "hash_anchors example_doc = [3, 4, 6]" by (simp add: example_doc_def)
  from anchor_click_no_fallback [OF example_hrefs(1), of example_doc "[]" example_page bare "click_on 3"]
    anchor_click_no_fallback [OF example_hrefs(2), of example_doc "[]" example_page bare "click_on 4"]
    anchor_click_no_fallback [OF h(1), of example_doc "[]" example_page bare "click_on 4"]
    anchor_click_no_fallback [OF h(2), of example_doc "[]" example_page bare "click_on 4"]
    example_hrefs example_queries r h l
  show ?thesis by simp
qed

text \<open>
  C4 as stated fails in a runtime with neither capability: the script throws when it
  runs, at the constructor of the reveal observer; and on a page with its listeners
  attached, the click on the link to \<open>#about\<close> throws with the default action
  cancelled, so that the page neither scrolls nor jumps.
\<close>

theorem anchor_click_without_animation_frames:
  "fst (script bare example_doc example_page) = Threw ReferenceError
   \<and> AnchorClick 3 \<in> set (fst (snd (script modern example_doc example_page)))
   \<and> fst (handle bare example_doc (AnchorClick 3) (click_on 3) loaded) = Threw ReferenceError
   \<and> defaultPrevented (fst (snd (handle bare example_doc (AnchorClick 3) (click_on 3) loaded)))
   \<and> snd (snd (handle bare example_doc (AnchorClick 3) (click_on 3) loaded)) = loaded"
  by (simp add: script_example example_hrefs example_queries anchor_click_def Let_def
      bare_def preventDefault_def click_on_def script_defs example_doc_def)

text \<open>
  C2 at two concrete documents. Without a \<open>.header\<close> the script completes and
  attaches the scroll listener all the same; a scroll event completes, and the debounced
  call 10 ms later throws a TypeError. With a product card that has no
  \<open>.product-name\<close> the script throws a TypeError in the loop over the cards, and the
  listeners of the newsletter form, of Escape and of the focus trap are never attached.
\<close>

theorem missing_elements_throw:
  "fst (script modern (example_doc\<lparr>header := None\<rparr>) example_page) = Completed
   \<and> WindowScroll None \<in> set (fst (snd (script modern (example_doc\<lparr>header := None\<rparr>) example_page)))
   \<and> fst (handle modern (example_doc\<lparr>header := None\<rparr>) (WindowScroll None) (click_on 0)
           (snd (snd (script modern (example_doc\<lparr>header := None\<rparr>) example_page))))
       = Completed
   \<and> fst (advance 10 (snd (snd (handle modern (example_doc\<lparr>header := None\<rparr>) (WindowScroll None)
            (click_on 0) (snd (snd (script modern (example_doc\<lparr>header := None\<rparr>) example_page)))))))
       = [Threw TypeError]
   \<and> fst (script modern (example_doc\<lparr>product_cards := [nameless_card]\<rparr>) example_page) = Threw TypeError
   \<and> fst (snd (script modern (example_doc\<lparr>product_cards := [nameless_card]\<rparr>) example_page))
       = [ToggleClick 1 2, NavLinkClick 3 1 2, NavLinkClick 4 1 2, DocumentClick 1 2,
          AnchorClick 3, AnchorClick 4, AnchorClick 6, WindowScroll (Some 5)]"
  by (simp add: script_defs example_defs nameless_card_def window_scroll_def
      executedFunction_def clearTimeout_def setTimeout_def Let_def advance_def due_timers_def
      fire_def handleScroll_func_def upd_def)

end
